theory Spec2Isabelle
  imports Main "HOL-Library.Word"
begin

section \<open>The Writable stream of src/writable.js\<close>

text \<open>
  The class \<open>Writable\<close> keeps its state in one object (\<open>this[writableState]\<close>) and
  talks to three collaborators: the sink operations \<open>_write\<close>, \<open>_writev\<close>,
  \<open>_final\<close> and \<open>_destroy\<close>, the event emitter it extends, and the scheduler
  (\<open>process.nextTick\<close>). The embedding is explicit state passing. Every call to a
  collaborator is appended to a trace of effects.

  A sink operation supplied by the user is asynchronous: the call is recorded, its
  completion closure is kept as outstanding, and the sink answers later through a
  completion event. The default \<open>_final\<close> and \<open>_destroy\<close> of the class call their
  callback at once, as the source does.

  \<open>emit\<close> is the one of \<open>EventEmitter\<close>: it runs the listeners of the signal before it
  returns, and for the signal \<open>error\<close> it throws the error when no listener is
  registered. A listener is code of the producer: it may call the interface of the stream
  while \<open>emit\<close> is running, and an exception it does not catch leaves \<open>emit\<close>. What
  the listeners do is a parameter of the model.

  The callbacks given to \<open>write\<close> and \<open>destroy\<close> are opaque identifiers: invoking one
  is an effect, and such a callback does not call the stream while it runs.
\<close>

subsection \<open>Data\<close>

type_synonym buffer = "8 word list"
type_synonym cbid = nat

text \<open>The error classes of src/errors.js that the stream raises, the errors of the
  platform it can provoke (\<open>process.nextTick\<close> without a function, a call of a method
  that does not exist, the exhausted call stack), and the opaque errors a sink reports.\<close>

datatype error =
    MethodNotImplementedError string
  | UnknownEncodingError string
  | InvalidArgTypeError string
  | StreamDestroyedError string
  | StreamWriteAfterEndError
  | InvalidCallbackError
  | NotAFunctionError string
  | StackOverflowError
  | SinkError nat

datatype signal = Drain | Finish | Close | ErrorSignal error

datatype effect =
    SinkWrite buffer
  | SinkWritev "buffer list"
  | SinkFinal
  | SinkDestroy "error option"
  | Emit signal
  | Once signal cbid
  | Call cbid "error option"
  | NextTick cbid error

text \<open>The argument of \<open>callWrite\<close>: one block, or an array of blocks
  (\<open>Array.isArray(data)\<close>).\<close>

datatype data = Block buffer | Blocks "buffer list"

text \<open>The first two arguments of \<open>write\<close> and \<open>end\<close>, as far as the source
  inspects them.\<close>

datatype chunk_arg = ChunkNone | ChunkFn cbid | ChunkBuf buffer | ChunkStr string | ChunkOther

datatype enc_arg = NoEnc | EncName string | EncFn cbid

datatype 'a outcome = Returned 'a | Threw error

text \<open>
  What can happen to a stream: a call of its interface by the producer (\<open>OnError\<close> is
  \<open>on('error', listener)\<close> and \<open>OffError\<close> is \<open>removeAllListeners('error')\<close>, both
  inherited from \<open>EventEmitter\<close>), or the answer of a sink operation that is outstanding.
\<close>

datatype event =
    Cork
  | Uncork
  | Destroy "error option" "cbid option"
  | SetDefaultEncoding "string option"
  | End chunk_arg enc_arg "cbid option"
  | Write chunk_arg enc_arg "cbid option"
  | OnError
  | OffError
  | WriteDone "error option"
  | FinalDone "error option"
  | DestroyDone "error option"

text \<open>
  The object. \<open>has_write\<close> and \<open>has_writev\<close> say whether \<open>this._write\<close> and
  \<open>this._writev\<close> exist; \<open>user_final\<close> and \<open>user_destroy\<close> say whether
  \<open>_final\<close> and \<open>_destroy\<close> were supplied, replacing the defaults of the class.
  The fields from \<open>defaultEncoding\<close> to \<open>corkedCallbacks\<close> are
  \<open>this[writableState]\<close>. \<open>error_listeners\<close> is the number of listeners of the
  emitter for \<open>error\<close>. The last six fields are the collaborators' side: the trace,
  the outstanding completion closures of the sink operations (a write closure captures the
  callbacks of its batch, a destroy closure the callback given to \<open>destroy\<close>), and
  two logs that no operation reads: the chunks accepted by \<open>write\<close> so far and the
  sink writes that completed so far.
\<close>

record writable =
  has_write :: bool
  has_writev :: bool
  user_final :: bool
  user_destroy :: bool
  defaultEncoding :: string
  emitClose :: bool
  autoDestroy :: bool
  highWaterMark :: int
  destroyed :: bool
  ended :: bool
  finished :: bool
  corked :: nat
  writing :: bool
  needDrain :: bool
  bytesInQueue :: nat
  buffers :: "buffer list"
  callbacks :: "cbid list"
  bytesCorked :: nat
  corkedBuffers :: "buffer list"
  corkedCallbacks :: "cbid list"
  error_listeners :: nat
  trace :: "effect list"
  inflight :: "(data \<times> cbid list) list"
  finals :: nat
  destroys :: "cbid option list"
  acceptedLog :: "buffer list"
  completedLog :: "data list"

text \<open>
  The platform and the producer's listeners are parameters of the model:
  \<open>Buffer.isEncoding\<close>, \<open>Buffer.from(string, encoding)\<close> and
  \<open>String.prototype.toLowerCase\<close>; the code of the listeners, which for a signal and
  the state in which it is emitted (the trace is part of it) gives the calls that the
  listeners of that signal make on the stream, in order, each with a flag that says
  whether the listener catches an exception of that call; and the depth to which such
  calls may nest before the call stack of the platform is exhausted.
\<close>

record platform =
  isEncoding :: "string \<Rightarrow> bool"
  bufferFrom :: "string \<Rightarrow> string \<Rightarrow> buffer"
  toLowerCase :: "string \<Rightarrow> string"
  listeners :: "signal \<Rightarrow> writable \<Rightarrow> (event \<times> bool) list"
  stack :: nat

text \<open>What running the listeners of a signal does to the stream.\<close>

type_synonym reaction = "signal \<Rightarrow> writable \<Rightarrow> unit outcome \<times> writable"

record options =
  opt_write :: bool
  opt_writev :: bool
  opt_final :: bool
  opt_destroy :: bool
  opt_defaultEncoding :: string
  opt_highWaterMark :: int
  opt_emitClose :: bool
  opt_autoDestroy :: bool

definition DEFAULT_BUFFER_SIZE :: int where
  "DEFAULT_BUFFER_SIZE = 16 * 1024"

definition default_options :: options where
  "default_options =
     \<lparr>opt_write = False, opt_writev = False, opt_final = False, opt_destroy = False,
      opt_defaultEncoding = ''utf8'', opt_highWaterMark = DEFAULT_BUFFER_SIZE,
      opt_emitClose = True, opt_autoDestroy = False\<rparr>"

definition new_Writable :: "options \<Rightarrow> writable" where
  "new_Writable opts =
     \<lparr>has_write = opt_write opts, has_writev = opt_writev opts,
      user_final = opt_final opts, user_destroy = opt_destroy opts,
      defaultEncoding = opt_defaultEncoding opts,
      emitClose = opt_emitClose opts,
      autoDestroy = opt_autoDestroy opts,
      highWaterMark = opt_highWaterMark opts,
      destroyed = False, ended = False, finished = False,
      corked = 0, writing = False, needDrain = False,
      bytesInQueue = 0, buffers = [], callbacks = [],
      bytesCorked = 0, corkedBuffers = [], corkedCallbacks = [],
      error_listeners = 0,
      trace = [], inflight = [], finals = 0, destroys = [],
      acceptedLog = [], completedLog = []\<rparr>"

subsection \<open>Operations\<close>

definition effects :: "effect list \<Rightarrow> writable \<Rightarrow> writable" where
  "effects es w = w\<lparr>trace := trace w @ es\<rparr>"

definition andThen ::
  "unit outcome \<times> writable \<Rightarrow> (writable \<Rightarrow> 'a outcome \<times> writable) \<Rightarrow> 'a outcome \<times> writable"
where
  "andThen r f = (case r of (Returned u, w) \<Rightarrow> f w | (Threw e, w) \<Rightarrow> (Threw e, w))"

text \<open>\<open>this.emit(signal)\<close>: the call is recorded; \<open>error\<close> without a listener is
  thrown; otherwise the listeners run, which is the reaction \<open>L\<close>.\<close>

definition emit :: "reaction \<Rightarrow> signal \<Rightarrow> writable \<Rightarrow> unit outcome \<times> writable" where
  "emit L sig w =
     (let w1 = effects [Emit sig] w
      in case sig of
           ErrorSignal e \<Rightarrow> if error_listeners w1 = 0 then (Threw e, w1) else L sig w1
         | _ \<Rightarrow> L sig w1)"

definition writableLength :: "writable \<Rightarrow> nat" where
  "writableLength w = bytesInQueue w + bytesCorked w"

definition cork :: "writable \<Rightarrow> writable" where
  "cork w = w\<lparr>corked := corked w + 1\<rparr>"

definition getBuffers :: "writable \<Rightarrow> buffer list \<times> writable" where
  "getBuffers w = (buffers w, w\<lparr>buffers := [], bytesInQueue := 0\<rparr>)"

text \<open>The closure given to \<open>_destroy\<close> by \<open>destroy\<close> (lines 97 to 107).\<close>

definition destroy_callback ::
  "reaction \<Rightarrow> cbid option \<Rightarrow> error option \<Rightarrow> writable \<Rightarrow> unit outcome \<times> writable" where
  "destroy_callback L callback err w =
     andThen
       (case callback of
          Some cb \<Rightarrow> (Returned (), effects [Call cb err] w)
        | None \<Rightarrow> (case err of Some e \<Rightarrow> emit L (ErrorSignal e) w | None \<Rightarrow> (Returned (), w)))
       (\<lambda>w1. if emitClose w1 then emit L Close w1 else (Returned (), w1))"

text \<open>\<open>this._destroy(error, callback)\<close>: the user's operation is left outstanding, the
  default one (lines 280 to 282) calls the callback with the error.\<close>

definition call_destroy ::
  "reaction \<Rightarrow> error option \<Rightarrow> cbid option \<Rightarrow> writable \<Rightarrow> unit outcome \<times> writable" where
  "call_destroy L err callback w =
     (let w1 = effects [SinkDestroy err] w
      in if user_destroy w1 then (Returned (), w1\<lparr>destroys := destroys w1 @ [callback]\<rparr>)
         else destroy_callback L callback err w1)"

text \<open>\<open>destroy(error, callback)\<close>; the call \<open>destroy(callback)\<close> is the call with no
  error and that callback.\<close>

definition destroy ::
  "reaction \<Rightarrow> error option \<Rightarrow> cbid option \<Rightarrow> writable \<Rightarrow> unit outcome \<times> writable" where
  "destroy L err callback w =
     (if destroyed w then (Threw (StreamDestroyedError ''destroy''), w)
      else call_destroy L err callback (w\<lparr>destroyed := True\<rparr>))"

definition errorOrDestroy :: "reaction \<Rightarrow> error option \<Rightarrow> writable \<Rightarrow> unit outcome \<times> writable" where
  "errorOrDestroy L err w =
     (if autoDestroy w then destroy L err None w
      else (case err of Some e \<Rightarrow> emit L (ErrorSignal e) w
                      | None \<Rightarrow> (Returned (), w)))"

text \<open>The closure given to \<open>_final\<close> by \<open>callFinish\<close> (lines 270 to 273).\<close>

definition final_callback :: "reaction \<Rightarrow> error option \<Rightarrow> writable \<Rightarrow> unit outcome \<times> writable" where
  "final_callback L err w = andThen (emit L Finish w) (errorOrDestroy L err)"

definition callFinish :: "reaction \<Rightarrow> writable \<Rightarrow> unit outcome \<times> writable" where
  "callFinish L w =
     (let w1 = effects [SinkFinal] (w\<lparr>finished := True\<rparr>)
      in if user_final w1 then (Returned (), w1\<lparr>finals := finals w1 + 1\<rparr>)
         else final_callback L None w1)"

definition callWrite :: "data \<Rightarrow> writable \<Rightarrow> unit outcome \<times> writable" where
  "callWrite d w =
     (let w1 = w\<lparr>writing := True\<rparr>;
          cbs = callbacks w1;
          w2 = w1\<lparr>callbacks := []\<rparr>
      in if \<not> has_write w2 \<and> \<not> has_writev w2
         then (Threw (MethodNotImplementedError ''_write and _writev''), w2)
         else (case d of
                 Blocks bs \<Rightarrow>
                   if has_writev w2
                   then (Returned (), (effects [SinkWritev bs] w2)
                           \<lparr>inflight := inflight w2 @ [(Blocks bs, cbs)]\<rparr>)
                   else (Returned (), (effects [SinkWrite (concat bs)] w2)
                           \<lparr>inflight := inflight w2 @ [(Block (concat bs), cbs)]\<rparr>)
               | Block b \<Rightarrow>
                   if has_write w2
                   then (Returned (), (effects [SinkWrite b] w2)
                           \<lparr>inflight := inflight w2 @ [(Block b, cbs)]\<rparr>)
                   else (Threw (NotAFunctionError ''_write''), w2)))"

text \<open>The completion closure built by \<open>callWrite\<close> (lines 217 to 236); \<open>cbs\<close> is the
  captured list of callbacks. Its second half (lines 224 to 235), which ends the writing
  phase or dispatches what was queued meanwhile, is \<open>next_batch\<close>: the listeners of
  \<open>drain\<close> run between the reset of \<open>writing\<close> and the test of \<open>ended\<close>.\<close>

definition next_batch :: "reaction \<Rightarrow> writable \<Rightarrow> unit outcome \<times> writable" where
  "next_batch L w =
     (if bytesInQueue w = 0
      then (let w1 = w\<lparr>writing := False\<rparr>
            in andThen
                 (if needDrain w1 then emit L Drain (w1\<lparr>needDrain := False\<rparr>)
                  else (Returned (), w1))
                 (\<lambda>w2. if ended w2 then callFinish L w2 else (Returned (), w2)))
      else (case getBuffers w of (bufs, w1) \<Rightarrow> callWrite (Blocks bufs) w1))"

definition write_callback ::
  "reaction \<Rightarrow> cbid list \<Rightarrow> error option \<Rightarrow> writable \<Rightarrow> unit outcome \<times> writable" where
  "write_callback L cbs err w =
     (let w1 = effects (map (\<lambda>cb. Call cb err) cbs) w
      in andThen (case err of Some e \<Rightarrow> errorOrDestroy L err w1 | None \<Rightarrow> (Returned (), w1))
           (next_batch L))"

text \<open>\<open>uncork\<close>; the body of \<open>if (state.corked === 0)\<close> (lines 70 to 82) is
  \<open>flush_corked\<close>.\<close>

definition flush_corked :: "writable \<Rightarrow> unit outcome \<times> writable" where
  "flush_corked w =
     (let w1 = w\<lparr>buffers := buffers w @ corkedBuffers w,
                  callbacks := callbacks w @ corkedCallbacks w,
                  bytesInQueue := bytesInQueue w + bytesCorked w\<rparr>;
          w2 = w1\<lparr>bytesCorked := 0, corkedBuffers := [], corkedCallbacks := []\<rparr>
      in if \<not> writing w2
         then (case getBuffers w2 of (bufs, w3) \<Rightarrow> callWrite (Blocks bufs) w3)
         else (Returned (), w2))"

definition uncork :: "writable \<Rightarrow> unit outcome \<times> writable" where
  "uncork w =
     (let w1 = (if corked w > 0 then w\<lparr>corked := corked w - 1\<rparr> else w)
      in if corked w1 = 0 then flush_corked w1 else (Returned (), w1))"

text \<open>
  \<open>write\<close>, in the order of the source: the encoding is resolved and checked, then the
  type of the chunk, then the presence of \<open>_write\<close>; a string is converted; a stream
  that has ended or is destroyed takes the error path (\<open>write_error\<close>, lines 180 to
  184); otherwise the chunk is queued or dispatched and the backpressure flag recomputed
  (\<open>write_accept\<close>, lines 186 to 206). \<open>process.nextTick\<close> of Node refuses a callback
  that is not a function, so the error path throws when no callback was given.
  \<open>write_with\<close> is the method with the reaction of the listeners as a parameter;
  \<open>write_stream\<close>, further down, is the method on a platform (\<open>write\<close> and \<open>end\<close>
  are keywords of Isabelle).
\<close>

definition resolve_callback :: "enc_arg \<Rightarrow> cbid option \<Rightarrow> cbid option" where
  "resolve_callback encoding callback = (case encoding of EncFn f \<Rightarrow> Some f | _ \<Rightarrow> callback)"

definition resolve_encoding :: "enc_arg \<Rightarrow> writable \<Rightarrow> string" where
  "resolve_encoding encoding w =
     (case encoding of
        EncFn f \<Rightarrow> defaultEncoding w
      | NoEnc \<Rightarrow> defaultEncoding w
      | EncName e \<Rightarrow> if e = [] then defaultEncoding w else e)"

definition to_buffer :: "platform \<Rightarrow> string \<Rightarrow> chunk_arg \<Rightarrow> buffer option" where
  "to_buffer p encoding chunk =
     (case chunk of
        ChunkBuf b \<Rightarrow> Some b
      | ChunkStr s \<Rightarrow> Some (bufferFrom p s encoding)
      | _ \<Rightarrow> None)"

definition write_error ::
  "reaction \<Rightarrow> error \<Rightarrow> cbid option \<Rightarrow> writable \<Rightarrow> bool outcome \<times> writable" where
  "write_error L e callback w =
     (case callback of
        None \<Rightarrow> (Threw InvalidCallbackError, w)
      | Some cb \<Rightarrow>
          andThen (errorOrDestroy L (Some e) (effects [NextTick cb e] w))
            (\<lambda>w1. (Returned False, w1)))"

definition write_accept :: "buffer \<Rightarrow> cbid option \<Rightarrow> writable \<Rightarrow> bool outcome \<times> writable" where
  "write_accept b callback w =
     (let w0 = w\<lparr>acceptedLog := acceptedLog w @ [b]\<rparr>;
          w1 = (case callback of
                  Some cb \<Rightarrow>
                    if corked w0 > 0 then w0\<lparr>corkedCallbacks := corkedCallbacks w0 @ [cb]\<rparr>
                    else w0\<lparr>callbacks := callbacks w0 @ [cb]\<rparr>
                | None \<Rightarrow> w0)
      in andThen
           (if corked w1 > 0
            then (Returned (), w1\<lparr>corkedBuffers := corkedBuffers w1 @ [b],
                                  bytesCorked := bytesCorked w1 + length b\<rparr>)
            else if writing w1
            then (Returned (), w1\<lparr>buffers := buffers w1 @ [b],
                                  bytesInQueue := bytesInQueue w1 + length b\<rparr>)
            else callWrite (Block b) w1)
           (\<lambda>w2. let w3 = w2\<lparr>needDrain := (highWaterMark w2 \<le> int (writableLength w2))\<rparr>
                 in (Returned (\<not> needDrain w3), w3)))"

definition write_with ::
  "reaction \<Rightarrow> platform \<Rightarrow> chunk_arg \<Rightarrow> enc_arg \<Rightarrow> cbid option \<Rightarrow> writable
     \<Rightarrow> bool outcome \<times> writable"
where
  "write_with L p chunk encoding callback w =
     (let cb = resolve_callback encoding callback;
          enc = resolve_encoding encoding w
      in if \<not> isEncoding p enc then (Threw (UnknownEncodingError enc), w)
         else (case to_buffer p enc chunk of
                 None \<Rightarrow> (Threw (InvalidArgTypeError ''chunk''), w)
               | Some b \<Rightarrow>
                   if \<not> has_write w then (Threw (MethodNotImplementedError ''_write''), w)
                   else if ended w then write_error L StreamWriteAfterEndError cb w
                   else if destroyed w then write_error L (StreamDestroyedError ''write'') cb w
                   else write_accept b cb w))"

text \<open>\<open>end\<close>: a function in first or second place is the callback; a chunk is written
  first, and an exception of that \<open>write\<close> leaves \<open>end\<close> before \<open>ended\<close> is set.\<close>

definition end_with ::
  "reaction \<Rightarrow> platform \<Rightarrow> chunk_arg \<Rightarrow> enc_arg \<Rightarrow> cbid option \<Rightarrow> writable
     \<Rightarrow> unit outcome \<times> writable"
where
  "end_with L p chunk encoding callback w =
     (let cb = (case chunk of ChunkFn f \<Rightarrow> Some f
                | _ \<Rightarrow> (case encoding of EncFn g \<Rightarrow> Some g | _ \<Rightarrow> callback));
          ch = (case chunk of ChunkFn f \<Rightarrow> ChunkNone | _ \<Rightarrow> chunk);
          enc = (case chunk of ChunkFn f \<Rightarrow> NoEnc
                 | _ \<Rightarrow> (case encoding of EncFn g \<Rightarrow> NoEnc | _ \<Rightarrow> encoding));
          r = (case ch of ChunkNone \<Rightarrow> (Returned (), w)
               | _ \<Rightarrow> (case write_with L p ch enc None w of
                         (Returned b, w1) \<Rightarrow> (Returned (), w1)
                       | (Threw e, w1) \<Rightarrow> (Threw e, w1)))
      in andThen r
           (\<lambda>w1. let w2 = w1\<lparr>ended := True\<rparr>
                 in (Returned (),
                     (case cb of Some c \<Rightarrow> effects [Once Finish c] w2 | None \<Rightarrow> w2))))"

text \<open>\<open>setDefaultEncoding\<close>; an argument that is not a string is \<open>None\<close>.\<close>

definition setDefaultEncoding ::
  "platform \<Rightarrow> string option \<Rightarrow> writable \<Rightarrow> unit outcome \<times> writable"
where
  "setDefaultEncoding p encoding w =
     (case encoding of
        None \<Rightarrow> (Threw (InvalidArgTypeError ''encoding''), w)
      | Some e \<Rightarrow>
          (let e1 = toLowerCase p e
           in if \<not> isEncoding p e1 then (Threw (UnknownEncodingError e1), w)
              else (Returned (), w\<lparr>defaultEncoding := e1\<rparr>)))"

subsection \<open>Events and listeners\<close>

text \<open>
  One event, with its outcome. An answer for which no operation is outstanding is not
  possible and leaves the state as it is. A call that throws leaves the object in the
  state reached when the exception was raised.
\<close>

definition perform :: "reaction \<Rightarrow> platform \<Rightarrow> event \<Rightarrow> writable \<Rightarrow> unit outcome \<times> writable" where
  "perform L p ev w =
     (case ev of
        Cork \<Rightarrow> (Returned (), cork w)
      | Uncork \<Rightarrow> uncork w
      | Destroy err cb \<Rightarrow> destroy L err cb w
      | SetDefaultEncoding encoding \<Rightarrow> setDefaultEncoding p encoding w
      | End chunk encoding cb \<Rightarrow> end_with L p chunk encoding cb w
      | Write chunk encoding cb \<Rightarrow>
          (case write_with L p chunk encoding cb w of
             (Returned b, w1) \<Rightarrow> (Returned (), w1)
           | (Threw e, w1) \<Rightarrow> (Threw e, w1))
      | OnError \<Rightarrow> (Returned (), w\<lparr>error_listeners := error_listeners w + 1\<rparr>)
      | OffError \<Rightarrow> (Returned (), w\<lparr>error_listeners := 0\<rparr>)
      | WriteDone err \<Rightarrow>
          (case inflight w of
             [] \<Rightarrow> (Returned (), w)
           | (d, cbs) # rest \<Rightarrow>
               write_callback L cbs err
                 (w\<lparr>inflight := rest, completedLog := completedLog w @ [d]\<rparr>))
      | FinalDone err \<Rightarrow>
          (if finals w = 0 then (Returned (), w)
           else final_callback L err (w\<lparr>finals := finals w - 1\<rparr>))
      | DestroyDone err \<Rightarrow>
          (case destroys w of
             [] \<Rightarrow> (Returned (), w)
           | cb # rest \<Rightarrow> destroy_callback L cb err (w\<lparr>destroys := rest\<rparr>)))"

text \<open>
  The listeners of a signal make their calls one after the other; an exception that the
  listener does not catch ends the run and leaves \<open>emit\<close>. Only calls of the interface
  are theirs to make: the answers of the sink are not. Calls made by a listener may emit
  signals in turn, whose listeners run one level deeper; at depth zero the call stack is
  exhausted and a listener that would call the stream makes \<open>emit\<close> throw.
\<close>

fun interface_call :: "event \<Rightarrow> bool" where
  "interface_call (WriteDone err) = False"
| "interface_call (FinalDone err) = False"
| "interface_call (DestroyDone err) = False"
| "interface_call ev = True"

fun run_script ::
  "(event \<Rightarrow> writable \<Rightarrow> unit outcome \<times> writable) \<Rightarrow> (event \<times> bool) list \<Rightarrow> writable
     \<Rightarrow> unit outcome \<times> writable"
where
  "run_script f [] w = (Returned (), w)"
| "run_script f ((ev, caught) # rest) w =
     (case f ev w of
        (Returned u, w1) \<Rightarrow> run_script f rest w1
      | (Threw e, w1) \<Rightarrow> if caught then run_script f rest w1 else (Threw e, w1))"

primrec react :: "platform \<Rightarrow> nat \<Rightarrow> reaction" where
  "react p 0 =
     (\<lambda>sig w. if filter (\<lambda>a. interface_call (fst a)) (listeners p sig w) = []
              then (Returned (), w) else (Threw StackOverflowError, w))"
| "react p (Suc n) =
     (\<lambda>sig w. run_script (perform (react p n) p)
                (filter (\<lambda>a. interface_call (fst a)) (listeners p sig w)) w)"

definition reaction :: "platform \<Rightarrow> reaction" where
  "reaction p = react p (stack p)"

text \<open>The methods and the events on a platform.\<close>

definition write_stream ::
  "platform \<Rightarrow> chunk_arg \<Rightarrow> enc_arg \<Rightarrow> cbid option \<Rightarrow> writable \<Rightarrow> bool outcome \<times> writable"
where
  "write_stream p chunk encoding callback w = write_with (reaction p) p chunk encoding callback w"

definition end_stream ::
  "platform \<Rightarrow> chunk_arg \<Rightarrow> enc_arg \<Rightarrow> cbid option \<Rightarrow> writable \<Rightarrow> unit outcome \<times> writable"
where
  "end_stream p chunk encoding callback w = end_with (reaction p) p chunk encoding callback w"

definition step :: "platform \<Rightarrow> event \<Rightarrow> writable \<Rightarrow> writable" where
  "step p ev w = snd (perform (reaction p) p ev w)"

fun run :: "platform \<Rightarrow> event list \<Rightarrow> writable \<Rightarrow> writable" where
  "run p [] w = w"
| "run p (ev # evs) w = run p evs (step p ev w)"

text \<open>A platform for the examples: the encodings Node knows by these names, one byte per
  character, lower case for the letters of ASCII, and listeners that make no call on the
  stream. On the second platform the listener of \<open>drain\<close> writes two chunks and ends the
  stream.\<close>

definition example_platform :: platform where
  "example_platform =
     \<lparr>isEncoding = (\<lambda>e. e \<in> set [''utf8'', ''ascii'', ''latin1'', ''hex'', ''base64'']),
      bufferFrom = (\<lambda>s e. map (\<lambda>c. of_nat (of_char c)) s),
      toLowerCase = map (\<lambda>c. if (65::nat) \<le> of_char c \<and> of_char c \<le> (90::nat)
                               then char_of (of_char c + (32::nat)) else c),
      listeners = (\<lambda>sig w. []),
      stack = Suc 0\<rparr>"

definition drain_platform :: platform where
  "drain_platform =
     example_platform
       \<lparr>listeners := (\<lambda>sig w. case sig of
                         Drain \<Rightarrow> [(Write (ChunkBuf [3]) NoEnc None, False),
                                   (Write (ChunkBuf [4, 5]) NoEnc None, False),
                                   (End ChunkNone NoEnc None, False)]
                       | _ \<Rightarrow> [])\<rparr>"

section \<open>The file stream of src/fs-write-stream.js\<close>

text \<open>
  \<open>WritableFileStream\<close> supplies \<open>_write\<close> and \<open>_writev\<close> on top of a file
  descriptor. The fields are those the two operations read and update; the calls to
  \<open>fs.write\<close> and \<open>fs.writev\<close> are effects with their arguments, the closure given
  to each is outstanding until the file system answers with an error or a byte count. A
  write that finds no descriptor registers a listener for \<open>open\<close> that calls
  \<open>_write\<close> again with the same data and callback.

  \<open>start\<close>, \<open>bytesWritten\<close> and the positions are numbers of JavaScript, that is
  doubles. \<open>start\<close> is taken as an integer, as the configuration of the spec has it (the
  constructor admits \<open>0 \<le> start \<le> Number.MAX_SAFE_INTEGER\<close>), and the file system
  reports a count of bytes; so the numbers here are the doubles that are integers and not
  negative, and infinity. Their sum is the exact sum rounded to the nearest double, to the
  one with the even mantissa in the middle, and to infinity from \<open>2^1024 - 2^970\<close> on:
  up to \<open>2^53\<close> every integer is a double and the sum is exact, beyond it is not.
\<close>

datatype jsnum = Finite nat | Infinity

fun bit_length :: "nat \<Rightarrow> nat" where
  "bit_length n = (if n = 0 then 0 else Suc (bit_length (n div 2)))"

definition round_double :: "nat \<Rightarrow> jsnum" where
  "round_double x =
     (if x \<le> 2 ^ 53 then Finite x
      else (let u = 2 ^ (bit_length x - 53);
                q = x div u;
                r = x mod u;
                q1 = (if 2 * r < u then q else if u < 2 * r then q + 1
                      else if even q then q else q + 1);
                y = q1 * u
            in if y < 2 ^ 1024 then Finite y else Infinity))"

fun js_add :: "jsnum \<Rightarrow> jsnum \<Rightarrow> jsnum" where
  "js_add (Finite a) (Finite b) = round_double (a + b)"
| "js_add a b = Infinity"

datatype fs_effect =
    FsWrite nat data nat nat jsnum
  | FsWritev nat "buffer list" jsnum
  | FsCall cbid "error option"

datatype fs_pending = PendingWrite "cbid option" | PendingWritev "cbid option"

record file_stream =
  fd :: "nat option"
  start :: nat
  bytesWritten :: jsnum
  fs_trace :: "fs_effect list"
  fs_inflight :: "fs_pending list"
  on_open :: "(data \<times> cbid option) list"

text \<open>\<open>data.length\<close>: the bytes of a block, the number of elements of an array.\<close>

definition data_length :: "data \<Rightarrow> nat" where
  "data_length d = (case d of Block b \<Rightarrow> length b | Blocks bs \<Rightarrow> length bs)"

definition fs_write :: "data \<Rightarrow> cbid option \<Rightarrow> file_stream \<Rightarrow> file_stream" where
  "fs_write d callback fs =
     (case fd fs of
        None \<Rightarrow> fs\<lparr>on_open := on_open fs @ [(d, callback)]\<rparr>
      | Some h \<Rightarrow>
          fs\<lparr>fs_trace := fs_trace fs @
                 [FsWrite h d 0 (data_length d) (js_add (Finite (start fs)) (bytesWritten fs))],
             fs_inflight := fs_inflight fs @ [PendingWrite callback]\<rparr>)"

definition fs_writev :: "buffer list \<Rightarrow> cbid option \<Rightarrow> file_stream \<Rightarrow> file_stream" where
  "fs_writev bs callback fs =
     (case fd fs of
        None \<Rightarrow> fs\<lparr>on_open := on_open fs @ [(Blocks bs, callback)]\<rparr>
      | Some h \<Rightarrow>
          fs\<lparr>fs_trace := fs_trace fs @
                 [FsWritev h bs (js_add (Finite (start fs)) (bytesWritten fs))],
             fs_inflight := fs_inflight fs @ [PendingWritev callback]\<rparr>)"

text \<open>The closures given to \<open>fs.write\<close> (lines 101 to 108) and to \<open>fs.writev\<close>
  (lines 122 to 129).\<close>

definition fs_write_done ::
  "cbid option \<Rightarrow> error option \<Rightarrow> nat \<Rightarrow> file_stream \<Rightarrow> file_stream" where
  "fs_write_done callback err bytes fs =
     (case err of
        Some e \<Rightarrow> (case callback of
                     Some cb \<Rightarrow> fs\<lparr>fs_trace := fs_trace fs @ [FsCall cb (Some e)]\<rparr>
                   | None \<Rightarrow> fs)
      | None \<Rightarrow>
          (let fs1 = fs\<lparr>bytesWritten := js_add (bytesWritten fs) (Finite bytes)\<rparr>
           in case callback of
                Some cb \<Rightarrow> fs1\<lparr>fs_trace := fs_trace fs1 @ [FsCall cb None]\<rparr>
              | None \<Rightarrow> fs1))"

definition fs_writev_done ::
  "cbid option \<Rightarrow> error option \<Rightarrow> nat \<Rightarrow> file_stream \<Rightarrow> file_stream" where
  "fs_writev_done callback err bytes fs =
     (case err of
        Some e \<Rightarrow> (case callback of
                     Some cb \<Rightarrow> fs\<lparr>fs_trace := fs_trace fs @ [FsCall cb (Some e)]\<rparr>
                   | None \<Rightarrow> fs)
      | None \<Rightarrow>
          (let fs1 = fs\<lparr>bytesWritten := js_add (bytesWritten fs) (Finite bytes)\<rparr>
           in case callback of
                Some cb \<Rightarrow> fs1\<lparr>fs_trace := fs_trace fs1 @ [FsCall cb None]\<rparr>
              | None \<Rightarrow> fs1))"

text \<open>The answer of the file system to the oldest outstanding call.\<close>

definition fs_answer :: "error option \<Rightarrow> nat \<Rightarrow> file_stream \<Rightarrow> file_stream" where
  "fs_answer err bytes fs =
     (case fs_inflight fs of
        [] \<Rightarrow> fs
      | PendingWrite cb # rest \<Rightarrow> fs_write_done cb err bytes (fs\<lparr>fs_inflight := rest\<rparr>)
      | PendingWritev cb # rest \<Rightarrow> fs_writev_done cb err bytes (fs\<lparr>fs_inflight := rest\<rparr>))"

text \<open>A sink write of the stream (\<open>callWrite\<close> passes one block to \<open>_write\<close> and an
  array to \<open>_writev\<close>) followed by the successful answer of the file system, which
  reports a number of bytes; and a sequence of such writes, one after the other, as the
  stream issues them.\<close>

definition sink_write_ok :: "data \<times> cbid option \<times> nat \<Rightarrow> file_stream \<Rightarrow> file_stream" where
  "sink_write_ok op fs =
     (case op of
        (Block b, cb, n) \<Rightarrow> fs_answer None n (fs_write (Block b) cb fs)
      | (Blocks bs, cb, n) \<Rightarrow> fs_answer None n (fs_writev bs cb fs))"

fun sink_writes_ok :: "(data \<times> cbid option \<times> nat) list \<Rightarrow> file_stream \<Rightarrow> file_stream" where
  "sink_writes_ok [] fs = fs"
| "sink_writes_ok (op # ops) fs = sink_writes_ok ops (sink_write_ok op fs)"

text \<open>The file positions of the calls in a trace, and the positions of consecutive
  writes that start at \<open>pos\<close> and each advance by the reported count.\<close>

fun positions :: "fs_effect list \<Rightarrow> jsnum list" where
  "positions [] = []"
| "positions (FsWrite h d off len pos # es) = pos # positions es"
| "positions (FsWritev h bs pos # es) = pos # positions es"
| "positions (FsCall cb err # es) = positions es"

fun contiguous_from :: "nat \<Rightarrow> nat list \<Rightarrow> nat list" where
  "contiguous_from pos [] = []"
| "contiguous_from pos (n # ns) = pos # contiguous_from (pos + n) ns"

section \<open>Notions used in the statements\<close>

text \<open>The sink writes and the teardown calls of a trace.\<close>

fun is_sink_write :: "effect \<Rightarrow> bool" where
  "is_sink_write (SinkWrite b) = True"
| "is_sink_write (SinkWritev bs) = True"
| "is_sink_write e = False"

definition sink_calls :: "effect list \<Rightarrow> effect list" where
  "sink_calls es = filter is_sink_write es"

fun is_teardown :: "effect \<Rightarrow> bool" where
  "is_teardown (SinkDestroy e) = True"
| "is_teardown e = False"

definition teardowns :: "effect list \<Rightarrow> nat" where
  "teardowns es = length (filter is_teardown es)"

text \<open>Byte counts: of a list of chunks, of the data of a sink write, of the sink writes
  outstanding, of the chunks accepted and of the sink writes completed.\<close>

definition sum_lengths :: "buffer list \<Rightarrow> nat" where
  "sum_lengths bs = sum_list (map length bs)"

definition data_bytes :: "data \<Rightarrow> nat" where
  "data_bytes d = (case d of Block b \<Rightarrow> length b | Blocks bs \<Rightarrow> sum_lengths bs)"

definition inflight_bytes :: "writable \<Rightarrow> nat" where
  "inflight_bytes w = sum_list (map (\<lambda>x. data_bytes (fst x)) (inflight w))"

definition accepted_bytes :: "writable \<Rightarrow> nat" where
  "accepted_bytes w = sum_lengths (acceptedLog w)"

definition completed_bytes :: "writable \<Rightarrow> nat" where
  "completed_bytes w = sum_list (map data_bytes (completedLog w))"

text \<open>The sink call that \<open>callWrite\<close> makes for a batch taken from the queue.\<close>

definition batch_call :: "writable \<Rightarrow> buffer list \<Rightarrow> effect" where
  "batch_call w bs = (if has_writev w then SinkWritev bs else SinkWrite (concat bs))"

text \<open>A call of \<open>write\<close> that reaches the queueing part of the function in state
  \<open>w\<close>, with \<open>b\<close> the bytes of its chunk: the arguments pass the checks, and the stream
  has not ended and is not destroyed.\<close>

definition accepted_write :: "platform \<Rightarrow> writable \<Rightarrow> event \<Rightarrow> buffer \<Rightarrow> bool" where
  "accepted_write p w ev b =
     (case ev of
        Write chunk enc cb \<Rightarrow>
          isEncoding p (resolve_encoding enc w)
          \<and> to_buffer p (resolve_encoding enc w) chunk = Some b
          \<and> has_write w \<and> \<not> ended w \<and> \<not> destroyed w
      | _ \<Rightarrow> False)"

text \<open>The part of the state that a write into the corked queue leaves alone.\<close>

definition uncorked_part ::
  "writable \<Rightarrow> (bool \<times> bool \<times> string \<times> bool \<times> bool) \<times> nat \<times> bool \<times> buffer list \<times> effect list"
where
  "uncorked_part w =
     ((has_write w, has_writev w, defaultEncoding w, ended w, destroyed w),
      corked w, writing w, buffers w, trace w)"

text \<open>The invariants of the reachable states.\<close>

definition destroy_inv :: "writable \<Rightarrow> bool" where
  "destroy_inv w \<longleftrightarrow> teardowns (trace w) = (if destroyed w then 1 else 0)"

definition finish_inv :: "writable \<Rightarrow> bool" where
  "finish_inv w \<longleftrightarrow> (if finished w then ended w \<and> SinkFinal \<in> set (trace w) else True)"

definition queue_inv :: "writable \<Rightarrow> bool" where
  "queue_inv w \<longleftrightarrow>
     bytesInQueue w = sum_lengths (buffers w)
     \<and> bytesCorked w = sum_lengths (corkedBuffers w)
     \<and> accepted_bytes w = completed_bytes w + inflight_bytes w + bytesInQueue w + bytesCorked w
     \<and> (has_write w \<or> acceptedLog w = [])"

text \<open>A reaction of the listeners that keeps a property of the state.\<close>

definition preserves :: "(writable \<Rightarrow> bool) \<Rightarrow> reaction \<Rightarrow> bool" where
  "preserves P L \<longleftrightarrow> (\<forall>sig w. P w \<longrightarrow> P (snd (L sig w)))"

section \<open>Example streams\<close>

text \<open>Streams and chunks for the concrete runs.\<close>

definition stream_hwm10 :: writable where
  "stream_hwm10 = new_Writable (default_options\<lparr>opt_write := True, opt_highWaterMark := 10\<rparr>)"

definition six_in_flight :: writable where
  "six_in_flight =
     run example_platform [Write (ChunkBuf [1, 2, 3, 4, 5, 6]) NoEnc None] stream_hwm10"

definition stream_wv :: writable where
  "stream_wv = new_Writable (default_options\<lparr>opt_write := True, opt_writev := True\<rparr>)"

definition stream_final :: writable where
  "stream_final = new_Writable (default_options\<lparr>opt_write := True, opt_final := True\<rparr>)"

definition stream_auto :: writable where
  "stream_auto =
     new_Writable (default_options\<lparr>opt_write := True, opt_destroy := True,
                                    opt_autoDestroy := True\<rparr>)"

definition stream_teardown :: writable where
  "stream_teardown = new_Writable (default_options\<lparr>opt_destroy := True\<rparr>)"

definition stream_auto_default :: writable where
  "stream_auto_default =
     new_Writable (default_options\<lparr>opt_write := True, opt_autoDestroy := True\<rparr>)"

text \<open>Streams that have ended, without and with a listener for \<open>error\<close>; a stream
  destroyed by its producer; a stream on which a chunk of length zero was written behind a
  write in flight that has since completed; and a stream destroyed by its producer whose
  write in flight then failed.\<close>

definition ended_plain :: writable where
  "ended_plain = run example_platform [End ChunkNone NoEnc None] stream_hwm10"

definition ended_listening :: writable where
  "ended_listening = run example_platform [OnError, End ChunkNone NoEnc None] stream_hwm10"

definition ended_auto :: writable where
  "ended_auto = run example_platform [End ChunkNone NoEnc None] stream_auto"

definition ended_auto_default :: writable where
  "ended_auto_default = run example_platform [End ChunkNone NoEnc None] stream_auto_default"

definition ended_auto_default_listening :: writable where
  "ended_auto_default_listening =
     run example_platform [OnError, End ChunkNone NoEnc None] stream_auto_default"

definition destroyed_auto_default :: writable where
  "destroyed_auto_default = run example_platform [Destroy None None] stream_auto_default"

definition empty_chunk_left :: writable where
  "empty_chunk_left =
     run example_platform
       [Write (ChunkBuf [1]) NoEnc None, Write (ChunkBuf []) NoEnc None, WriteDone None]
       stream_wv"

definition failed_after_destroy :: writable where
  "failed_after_destroy =
     run example_platform
       [Write (ChunkBuf [1]) NoEnc None, Destroy None None, WriteDone (Some (SinkError 1))]
       stream_auto_default"

definition file_at_100 :: file_stream where
  "file_at_100 =
     \<lparr>fd = Some 3, start = 100, bytesWritten = Finite 0, fs_trace = [], fs_inflight = [],
      on_open = []\<rparr>"

text \<open>A file stream constructed with \<open>start = Number.MAX_SAFE_INTEGER\<close>, which is
  \<open>2^53 - 1\<close>.\<close>

definition file_at_max :: file_stream where
  "file_at_max =
     \<lparr>fd = Some 3, start = 9007199254740991, bytesWritten = Finite 0, fs_trace = [],
      fs_inflight = [], on_open = []\<rparr>"

section \<open>Auxiliary facts\<close>

declare bit_length.simps [simp del]

lemmas prim_defs = effects_def andThen_def writableLength_def cork_def getBuffers_def

lemmas model_defs =
  new_Writable_def default_options_def DEFAULT_BUFFER_SIZE_def effects_def emit_def
  andThen_def writableLength_def cork_def getBuffers_def destroy_callback_def
  call_destroy_def destroy_def errorOrDestroy_def final_callback_def callFinish_def
  callWrite_def next_batch_def write_callback_def flush_corked_def uncork_def
  resolve_callback_def resolve_encoding_def
  to_buffer_def write_error_def write_accept_def write_with_def end_with_def
  setDefaultEncoding_def perform_def reaction_def write_stream_def end_stream_def step_def
  example_platform_def Let_def

lemma snd_andThen:
  "P (snd r) \<Longrightarrow> (\<And>w. P w \<Longrightarrow> P (snd (f w))) \<Longrightarrow> P (snd (andThen r f))"
  by (cases r; cases "fst r") (auto simp: andThen_def)

lemma snd_case_outcome:
  "snd (case r of (Returned b, w1) \<Rightarrow> (Returned (), w1) | (Threw e, w1) \<Rightarrow> (Threw e, w1)) = snd r"
  by (cases r; cases "fst r") auto

lemma effects_fields [simp]:
  "has_write (effects es w) = has_write w"
  "has_writev (effects es w) = has_writev w"
  "user_final (effects es w) = user_final w"
  "user_destroy (effects es w) = user_destroy w"
  "defaultEncoding (effects es w) = defaultEncoding w"
  "emitClose (effects es w) = emitClose w"
  "autoDestroy (effects es w) = autoDestroy w"
  "highWaterMark (effects es w) = highWaterMark w"
  "destroyed (effects es w) = destroyed w"
  "ended (effects es w) = ended w"
  "finished (effects es w) = finished w"
  "corked (effects es w) = corked w"
  "writing (effects es w) = writing w"
  "needDrain (effects es w) = needDrain w"
  "bytesInQueue (effects es w) = bytesInQueue w"
  "buffers (effects es w) = buffers w"
  "callbacks (effects es w) = callbacks w"
  "bytesCorked (effects es w) = bytesCorked w"
  "corkedBuffers (effects es w) = corkedBuffers w"
  "corkedCallbacks (effects es w) = corkedCallbacks w"
  "inflight (effects es w) = inflight w"
  "finals (effects es w) = finals w"
  "destroys (effects es w) = destroys w"
  "acceptedLog (effects es w) = acceptedLog w"
  "completedLog (effects es w) = completedLog w"
  "error_listeners (effects es w) = error_listeners w"
  "trace (effects es w) = trace w @ es"
  by (simp_all add: effects_def)

text \<open>A property of the state that every event keeps, whatever the listeners do as long
  as they keep it, is kept by the listeners at every depth, and so by every run.\<close>

lemma preservesD: "preserves P L \<Longrightarrow> P w \<Longrightarrow> P (snd (L sig w))"
  by (simp add: preserves_def)

lemma preserves_emit:
  "preserves P L \<Longrightarrow> P (effects [Emit sig] w) \<Longrightarrow> P (snd (emit L sig w))"
  by (cases sig) (simp_all add: emit_def Let_def preservesD)

lemma preserves_run_script:
  assumes "\<And>ev v. P v \<Longrightarrow> P (snd (f ev v))"
  shows "P w \<Longrightarrow> P (snd (run_script f s w))"
proof (induction s arbitrary: w)
  case Nil
  then show ?case by simp
next
  case (Cons a s)
  obtain ev caught where a: "a = (ev, caught)" by (cases a) auto
  obtain r w1 where f: "f ev w = (r, w1)" by (cases "f ev w") auto
  from assms [OF Cons.prems, of ev] f have "P w1" by simp
  with Cons.IH [of w1] a f show ?case by (cases r) simp_all
qed

lemma preserves_react:
  assumes "\<And>L ev v. preserves P L \<Longrightarrow> P v \<Longrightarrow> P (snd (perform L p ev v))"
  shows "preserves P (react p n)"
proof (induction n)
  case 0
  show ?case by (simp add: preserves_def)
next
  case (Suc n)
  have "\<And>sig w. P w \<Longrightarrow>
      P (snd (run_script (perform (react p n) p)
                (filter (\<lambda>a. interface_call (fst a)) (listeners p sig w)) w))"
    by (rule preserves_run_script) (rule assms [OF Suc.IH])
  then show ?case by (simp add: preserves_def)
qed

lemma preserves_run:
  assumes "\<And>L ev v. preserves P L \<Longrightarrow> P v \<Longrightarrow> P (snd (perform L p ev v))"
  shows "P w \<Longrightarrow> P (run p evs w)"
proof (induction evs arbitrary: w)
  case Nil
  then show ?case by simp
next
  case (Cons ev evs)
  have "preserves P (reaction p)"
    unfolding reaction_def by (rule preserves_react) (rule assms)
  from assms [OF this Cons.prems] have "P (step p ev w)" by (simp add: step_def)
  from Cons.IH [OF this] show ?case by simp
qed

lemma sink_calls_append [simp]: "sink_calls (xs @ ys) = sink_calls xs @ sink_calls ys"
  by (simp add: sink_calls_def)

lemma sink_calls_simps [simp]:
  "sink_calls [] = []"
  "sink_calls (SinkWrite b # es) = SinkWrite b # sink_calls es"
  "sink_calls (SinkWritev bs # es) = SinkWritev bs # sink_calls es"
  "sink_calls (SinkFinal # es) = sink_calls es"
  "sink_calls (SinkDestroy eo # es) = sink_calls es"
  "sink_calls (Emit s # es) = sink_calls es"
  "sink_calls (Once s c # es) = sink_calls es"
  "sink_calls (Call c eo # es) = sink_calls es"
  "sink_calls (NextTick c e # es) = sink_calls es"
  by (simp_all add: sink_calls_def)

lemma sink_calls_calls [simp]: "sink_calls (map (\<lambda>cb. Call cb err) cbs) = []"
  by (induction cbs) simp_all

section \<open>End of the stream\<close>

text \<open>
  C1, on the code. \<open>end\<close> on a new stream, with no chunk, sets \<open>ended\<close> and registers
  the callback for the finish signal, and nothing else: the finalize operation is not
  called, the finish signal is not raised, \<open>finished\<close> stays false, and no operation is
  outstanding whose completion could still do it. The other path to the end does finish:
  when one chunk was written first, the completion of its sink write calls the finalize
  operation and the finish signal follows. And a later \<open>uncork\<close> on that finished
  stream dispatches an empty batch whose completion raises the finish signal again.
\<close>

theorem end_without_writes_never_finishes:
  "ended (snd (end_stream p ChunkNone NoEnc cb (new_Writable opts)))
   \<and> \<not> finished (snd (end_stream p ChunkNone NoEnc cb (new_Writable opts)))
   \<and> trace (snd (end_stream p ChunkNone NoEnc cb (new_Writable opts)))
       = (case cb of Some c \<Rightarrow> [Once Finish c] | None \<Rightarrow> [])
   \<and> inflight (snd (end_stream p ChunkNone NoEnc cb (new_Writable opts))) = []
   \<and> finals (snd (end_stream p ChunkNone NoEnc cb (new_Writable opts))) = 0
   \<and> destroys (snd (end_stream p ChunkNone NoEnc cb (new_Writable opts))) = []
   \<and> run p [WriteDone e1, FinalDone e2, DestroyDone e3]
        (snd (end_stream p ChunkNone NoEnc cb (new_Writable opts)))
       = snd (end_stream p ChunkNone NoEnc cb (new_Writable opts))
   \<and> trace (run example_platform
        [Write (ChunkBuf [1]) NoEnc None, End ChunkNone NoEnc (Some 9), WriteDone None]
        stream_wv)
       = [SinkWrite [1], Once Finish 9, SinkFinal, Emit Finish]
   \<and> trace (run example_platform
        [Write (ChunkBuf [1]) NoEnc None, End ChunkNone NoEnc (Some 9), WriteDone None,
         Uncork, WriteDone None]
        stream_wv)
       = [SinkWrite [1], Once Finish 9, SinkFinal, Emit Finish,
          SinkWritev [], SinkFinal, Emit Finish]"
proof -
  have "trace (run example_platform
        [Write (ChunkBuf [1]) NoEnc None, End ChunkNone NoEnc (Some 9), WriteDone None]
        stream_wv)
       = [SinkWrite [1], Once Finish 9, SinkFinal, Emit Finish]"
    by (simp add: stream_wv_def model_defs)
  moreover have "trace (run example_platform
        [Write (ChunkBuf [1]) NoEnc None, End ChunkNone NoEnc (Some 9), WriteDone None,
         Uncork, WriteDone None]
        stream_wv)
       = [SinkWrite [1], Once Finish 9, SinkFinal, Emit Finish,
          SinkWritev [], SinkFinal, Emit Finish]"
    by (simp add: stream_wv_def model_defs)
  ultimately show ?thesis
    by (cases cb)
       (simp_all add: end_stream_def end_with_def step_def perform_def new_Writable_def
          prim_defs)
qed

section \<open>The finished flag\<close>

lemma finish_inv_upd [simp]:
  "finish_inv (w\<lparr>defaultEncoding := x0\<rparr>) = finish_inv w"
  "finish_inv (w\<lparr>destroyed := x1\<rparr>) = finish_inv w"
  "finish_inv (w\<lparr>corked := x2\<rparr>) = finish_inv w"
  "finish_inv (w\<lparr>writing := x3\<rparr>) = finish_inv w"
  "finish_inv (w\<lparr>needDrain := x4\<rparr>) = finish_inv w"
  "finish_inv (w\<lparr>bytesInQueue := x5\<rparr>) = finish_inv w"
  "finish_inv (w\<lparr>buffers := x6\<rparr>) = finish_inv w"
  "finish_inv (w\<lparr>callbacks := x7\<rparr>) = finish_inv w"
  "finish_inv (w\<lparr>bytesCorked := x8\<rparr>) = finish_inv w"
  "finish_inv (w\<lparr>corkedBuffers := x9\<rparr>) = finish_inv w"
  "finish_inv (w\<lparr>corkedCallbacks := x10\<rparr>) = finish_inv w"
  "finish_inv (w\<lparr>error_listeners := x11\<rparr>) = finish_inv w"
  "finish_inv (w\<lparr>inflight := x12\<rparr>) = finish_inv w"
  "finish_inv (w\<lparr>finals := x13\<rparr>) = finish_inv w"
  "finish_inv (w\<lparr>destroys := x14\<rparr>) = finish_inv w"
  "finish_inv (w\<lparr>acceptedLog := x15\<rparr>) = finish_inv w"
  "finish_inv (w\<lparr>completedLog := x16\<rparr>) = finish_inv w"
  by (simp_all add: finish_inv_def )

lemma finish_inv_effects: "finish_inv w \<Longrightarrow> finish_inv (effects es w)"
  by (simp add: finish_inv_def effects_def split: if_splits)

lemma finish_inv_ended: "finish_inv w \<Longrightarrow> finish_inv (w\<lparr>ended := True\<rparr>)"
  by (simp add: finish_inv_def split: if_splits)

lemma finish_inv_emit:
  "preserves finish_inv L \<Longrightarrow> finish_inv w \<Longrightarrow> finish_inv (snd (emit L s w))"
  by (rule preserves_emit) (simp_all add: finish_inv_effects)

lemma finish_inv_destroy_callback:
  assumes "preserves finish_inv L" and "finish_inv w"
  shows "finish_inv (snd (destroy_callback L cb err w))"
  unfolding destroy_callback_def
  apply (rule snd_andThen)
   apply (simp add: assms finish_inv_emit finish_inv_effects split: option.splits)
  apply (simp add: assms finish_inv_emit)
  done

lemma finish_inv_destroy:
  assumes "preserves finish_inv L" and "finish_inv w"
  shows "finish_inv (snd (destroy L err cb w))"
proof (cases "destroyed w")
  case True
  with assms show ?thesis by (simp add: destroy_def)
next
  case False
  from assms(2) have 1: "finish_inv (effects [SinkDestroy err] (w\<lparr>destroyed := True\<rparr>))"
    by (simp add: finish_inv_effects)
  from finish_inv_destroy_callback [OF assms(1) 1] 1 False show ?thesis
    by (simp add: destroy_def call_destroy_def Let_def)
qed

lemma finish_inv_errorOrDestroy:
  assumes "preserves finish_inv L" and "finish_inv w"
  shows "finish_inv (snd (errorOrDestroy L err w))"
  using assms
  by (simp add: errorOrDestroy_def finish_inv_destroy finish_inv_emit split: option.splits)

lemma finish_inv_final_callback:
  assumes "preserves finish_inv L" and "finish_inv w"
  shows "finish_inv (snd (final_callback L err w))"
  unfolding final_callback_def
  apply (rule snd_andThen)
   apply (simp add: assms finish_inv_emit)
  apply (simp add: assms finish_inv_errorOrDestroy)
  done

lemma finish_inv_finished:
  "ended w \<Longrightarrow> finish_inv (effects [SinkFinal] (w\<lparr>finished := True\<rparr>))"
  by (simp add: finish_inv_def effects_def)

lemma finish_inv_callFinish:
  assumes "preserves finish_inv L" and "ended w"
  shows "finish_inv (snd (callFinish L w))"
  using assms
  by (simp add: callFinish_def Let_def finish_inv_final_callback finish_inv_finished)

lemma finish_inv_callWrite: "finish_inv w \<Longrightarrow> finish_inv (snd (callWrite d w))"
  by (simp add: callWrite_def Let_def finish_inv_effects split: data.splits)

lemma finish_inv_next_batch:
  assumes "preserves finish_inv L" and "finish_inv w"
  shows "finish_inv (snd (next_batch L w))"
proof (cases "bytesInQueue w = 0")
  case True
  have "finish_inv (snd (andThen
      (if needDrain (w\<lparr>writing := False\<rparr>)
       then emit L Drain (w\<lparr>writing := False, needDrain := False\<rparr>)
       else (Returned (), w\<lparr>writing := False\<rparr>))
      (\<lambda>w2. if ended w2 then callFinish L w2 else (Returned (), w2))))"
    apply (rule snd_andThen)
     apply (simp add: assms finish_inv_emit)
    apply (simp add: assms finish_inv_callFinish)
    done
  with True show ?thesis by (simp add: next_batch_def Let_def)
next
  case False
  with assms(2) show ?thesis
    by (simp add: next_batch_def getBuffers_def finish_inv_callWrite)
qed

lemma finish_inv_write_callback:
  assumes "preserves finish_inv L" and "finish_inv w"
  shows "finish_inv (snd (write_callback L cbs err w))"
  unfolding write_callback_def Let_def
  apply (rule snd_andThen)
   apply (simp add: assms finish_inv_errorOrDestroy finish_inv_effects split: option.splits)
  apply (simp add: assms finish_inv_next_batch)
  done

lemma finish_inv_uncork: "finish_inv w \<Longrightarrow> finish_inv (snd (uncork w))"
  by (simp add: uncork_def flush_corked_def Let_def getBuffers_def finish_inv_callWrite)

lemma finish_inv_write_error:
  assumes "preserves finish_inv L" and "finish_inv w"
  shows "finish_inv (snd (write_error L e cb w))"
  unfolding write_error_def
  apply (cases cb; simp add: assms)
  apply (rule snd_andThen)
   apply (simp_all add: assms finish_inv_errorOrDestroy finish_inv_effects)
  done

lemma finish_inv_write_accept: "finish_inv w \<Longrightarrow> finish_inv (snd (write_accept b cb w))"
  unfolding write_accept_def Let_def
  apply (rule snd_andThen)
   apply (simp add: finish_inv_callWrite split: option.splits)
  apply simp
  done

lemma finish_inv_write:
  assumes "preserves finish_inv L" and "finish_inv w"
  shows "finish_inv (snd (write_with L p chunk enc cb w))"
  using assms
  by (simp add: write_with_def Let_def finish_inv_write_error finish_inv_write_accept
        split: option.splits)

lemma finish_inv_end:
  assumes "preserves finish_inv L" and "finish_inv w"
  shows "finish_inv (snd (end_with L p chunk enc cb w))"
  unfolding end_with_def Let_def
  apply (rule snd_andThen)
   apply (simp add: assms snd_case_outcome finish_inv_write split: chunk_arg.splits)
  apply (simp add: finish_inv_effects finish_inv_ended split: chunk_arg.splits enc_arg.splits option.splits)
  done

lemma finish_inv_perform:
  assumes "preserves finish_inv L" and "finish_inv w"
  shows "finish_inv (snd (perform L p ev w))"
  using assms unfolding perform_def
  by (cases ev)
     (simp_all add: cork_def setDefaultEncoding_def Let_def snd_case_outcome
        finish_inv_uncork finish_inv_destroy finish_inv_end finish_inv_write
        finish_inv_write_callback finish_inv_final_callback finish_inv_destroy_callback finish_inv_ended
        split: list.splits prod.splits option.splits)

lemma finish_inv_new: "finish_inv (new_Writable opts)"
  by (simp add: finish_inv_def new_Writable_def)

text \<open>
  C2, as stated, fails. With a finalize operation supplied by the user, one chunk is
  written, the stream is ended and the sink write completes. \<open>callFinish\<close> sets
  \<open>finished\<close> and then calls the finalize operation: the flag is true while that
  operation is outstanding and before the finish signal. The queue need not have drained
  either. The listeners of \<open>drain\<close> run between the reset of \<open>writing\<close> and the
  test of \<open>ended\<close>: when a listener writes two chunks and ends the stream,
  \<open>finished\<close> is set while its first chunk is in flight and its second one is queued.
  And a chunk of length zero, queued behind a write in flight, is still in the pending
  queue when that write completes and the stream finishes.
\<close>

theorem finished_before_finalize_completes:
  "finished (run example_platform
      [Write (ChunkBuf [1]) NoEnc None, End ChunkNone NoEnc None, WriteDone None] stream_final)
   \<and> finals (run example_platform
      [Write (ChunkBuf [1]) NoEnc None, End ChunkNone NoEnc None, WriteDone None] stream_final)
      = 1
   \<and> trace (run example_platform
      [Write (ChunkBuf [1]) NoEnc None, End ChunkNone NoEnc None, WriteDone None] stream_final)
      = [SinkWrite [1], SinkFinal]
   \<and> finished (run drain_platform
      [Write (ChunkBuf [1]) NoEnc None, Write (ChunkBuf [2]) NoEnc None,
       WriteDone None, WriteDone None]
      (new_Writable (default_options\<lparr>opt_write := True, opt_highWaterMark := 1\<rparr>)))
   \<and> bytesInQueue (run drain_platform
      [Write (ChunkBuf [1]) NoEnc None, Write (ChunkBuf [2]) NoEnc None,
       WriteDone None, WriteDone None]
      (new_Writable (default_options\<lparr>opt_write := True, opt_highWaterMark := 1\<rparr>))) = 2
   \<and> buffers (run drain_platform
      [Write (ChunkBuf [1]) NoEnc None, Write (ChunkBuf [2]) NoEnc None,
       WriteDone None, WriteDone None]
      (new_Writable (default_options\<lparr>opt_write := True, opt_highWaterMark := 1\<rparr>)))
      = [[4, 5]]
   \<and> inflight (run drain_platform
      [Write (ChunkBuf [1]) NoEnc None, Write (ChunkBuf [2]) NoEnc None,
       WriteDone None, WriteDone None]
      (new_Writable (default_options\<lparr>opt_write := True, opt_highWaterMark := 1\<rparr>)))
      = [(Block [3], [])]
   \<and> finished (run example_platform
      [Write (ChunkBuf [1]) NoEnc None, Write (ChunkBuf []) NoEnc (Some 2),
       End ChunkNone NoEnc None, WriteDone None] stream_wv)
   \<and> buffers (run example_platform
      [Write (ChunkBuf [1]) NoEnc None, Write (ChunkBuf []) NoEnc (Some 2),
       End ChunkNone NoEnc None, WriteDone None] stream_wv) = [[]]"
  by (simp add: stream_final_def drain_platform_def stream_wv_def model_defs)

text \<open>
  C2, amended. In every state reachable from a new stream, whatever the listeners do,
  \<open>finished\<close> is true only if \<open>ended\<close> is true and the finalize operation has been
  called: the flag is set when the finalize operation is called, not when it completes.
  Nothing is said of the queue.
\<close>

theorem finished_only_after_end_and_finalize_call:
  "finished (run p evs (new_Writable opts)) \<longrightarrow>
     ended (run p evs (new_Writable opts))
     \<and> SinkFinal \<in> set (trace (run p evs (new_Writable opts)))"
proof -
  have "finish_inv (run p evs (new_Writable opts))"
    by (rule preserves_run) (rule finish_inv_perform, assumption+, rule finish_inv_new)
  then show ?thesis by (simp add: finish_inv_def split: if_splits)
qed

theorem finished_only_after_end_and_finalize_call_witness:
  "finished (run example_platform
      [Write (ChunkBuf [1]) NoEnc None, End ChunkNone NoEnc None, WriteDone None]
      (new_Writable (default_options\<lparr>opt_write := True\<rparr>)))
   \<and> ended (run example_platform
      [Write (ChunkBuf [1]) NoEnc None, End ChunkNone NoEnc None, WriteDone None]
      (new_Writable (default_options\<lparr>opt_write := True\<rparr>)))
   \<and> SinkFinal \<in> set (trace (run example_platform
      [Write (ChunkBuf [1]) NoEnc None, End ChunkNone NoEnc None, WriteDone None]
      (new_Writable (default_options\<lparr>opt_write := True\<rparr>))))"
  using finished_only_after_end_and_finalize_call [where p = example_platform
      and evs = "[Write (ChunkBuf [1]) NoEnc None, End ChunkNone NoEnc None, WriteDone None]"
      and opts = "default_options\<lparr>opt_write := True\<rparr>"]
  by (simp add: model_defs)

section \<open>Backpressure\<close>

text \<open>
  C3, as stated, fails: with \<open>highWaterMark = 10\<close>, six bytes are written and
  dispatched, and six more are written while the first write is outstanding. The second
  \<open>write\<close> returns \<open>true\<close>, although twelve accepted bytes are not completed.
\<close>

theorem second_write_in_flight_returns_true:
  "fst (write_stream example_platform (ChunkBuf [7, 8, 9, 10, 11, 12]) NoEnc None six_in_flight)
     = Returned True
   \<and> inflight six_in_flight = [(Block [1, 2, 3, 4, 5, 6], [])]
   \<and> highWaterMark six_in_flight = 10
   \<and> accepted_bytes
        (snd (write_stream example_platform (ChunkBuf [7, 8, 9, 10, 11, 12]) NoEnc None
               six_in_flight)) = 12
   \<and> completed_bytes
        (snd (write_stream example_platform (ChunkBuf [7, 8, 9, 10, 11, 12]) NoEnc None
               six_in_flight)) = 0
   \<and> highWaterMark six_in_flight
       \<le> int (accepted_bytes
                 (snd (write_stream example_platform (ChunkBuf [7, 8, 9, 10, 11, 12]) NoEnc
                        None six_in_flight))
               - completed_bytes
                   (snd (write_stream example_platform (ChunkBuf [7, 8, 9, 10, 11, 12]) NoEnc
                          None six_in_flight)))"
  by (simp add: six_in_flight_def stream_hwm10_def model_defs accepted_bytes_def
        completed_bytes_def sum_lengths_def)

text \<open>
  C3, amended. An accepted \<open>write\<close> on a stream that is not corked returns \<open>false\<close>
  exactly when the bytes queued and not yet dispatched, \<open>bytesInQueue + bytesCorked\<close>
  after the call, reach \<open>highWaterMark\<close>. The chunk counts when it is queued behind an
  outstanding sink operation and does not count when it is dispatched at once; the bytes
  of the outstanding operation never count.
\<close>

theorem write_backpressure_counts_queued_bytes:
  assumes "isEncoding p (resolve_encoding enc w)"
    and "to_buffer p (resolve_encoding enc w) chunk = Some b"
    and "has_write w" and "\<not> ended w" and "\<not> destroyed w" and "corked w = 0"
  shows "fst (write_stream p chunk enc cb w) =
           Returned (\<not> highWaterMark w
                        \<le> int (bytesInQueue (snd (write_stream p chunk enc cb w))
                               + bytesCorked (snd (write_stream p chunk enc cb w))))
         \<and> bytesInQueue (snd (write_stream p chunk enc cb w))
             = (if writing w then bytesInQueue w + length b else bytesInQueue w)
         \<and> bytesCorked (snd (write_stream p chunk enc cb w)) = bytesCorked w
         \<and> needDrain (snd (write_stream p chunk enc cb w)) =
             (highWaterMark w \<le> int (writableLength (snd (write_stream p chunk enc cb w))))"
  using assms
  by (auto simp: write_stream_def write_with_def write_accept_def callWrite_def prim_defs
        Let_def resolve_callback_def split: option.splits enc_arg.splits)

theorem write_backpressure_counts_queued_bytes_witness:
  "isEncoding example_platform (resolve_encoding NoEnc six_in_flight)
   \<and> to_buffer example_platform (resolve_encoding NoEnc six_in_flight) (ChunkStr ''0123456789'')
       = Some [48, 49, 50, 51, 52, 53, 54, 55, 56, 57]
   \<and> has_write six_in_flight \<and> \<not> ended six_in_flight \<and> \<not> destroyed six_in_flight
   \<and> corked six_in_flight = 0 \<and> writing six_in_flight
   \<and> fst (write_stream example_platform (ChunkStr ''0123456789'') NoEnc None six_in_flight)
       = Returned False
   \<and> bytesInQueue
        (snd (write_stream example_platform (ChunkStr ''0123456789'') NoEnc None six_in_flight))
       = 10"
  using write_backpressure_counts_queued_bytes [where p = example_platform and enc = NoEnc
      and w = six_in_flight and chunk = "ChunkStr ''0123456789''"
      and b = "[48, 49, 50, 51, 52, 53, 54, 55, 56, 57]" and cb = None]
  by (simp add: six_in_flight_def stream_hwm10_def model_defs)

section \<open>The byte counters\<close>

lemma sum_lengths_simps [simp]:
  "sum_lengths [] = 0"
  "sum_lengths (xs @ ys) = sum_lengths xs + sum_lengths ys"
  "sum_lengths (b # xs) = length b + sum_lengths xs"
  by (simp_all add: sum_lengths_def)

lemma length_concat_sum_lengths: "length (concat bs) = sum_lengths bs"
  by (simp add: sum_lengths_def length_concat)

lemma queue_inv_upd [simp]:
  "queue_inv (w\<lparr>defaultEncoding := x0\<rparr>) = queue_inv w"
  "queue_inv (w\<lparr>destroyed := x1\<rparr>) = queue_inv w"
  "queue_inv (w\<lparr>ended := x2\<rparr>) = queue_inv w"
  "queue_inv (w\<lparr>finished := x3\<rparr>) = queue_inv w"
  "queue_inv (w\<lparr>corked := x4\<rparr>) = queue_inv w"
  "queue_inv (w\<lparr>writing := x5\<rparr>) = queue_inv w"
  "queue_inv (w\<lparr>needDrain := x6\<rparr>) = queue_inv w"
  "queue_inv (w\<lparr>callbacks := x7\<rparr>) = queue_inv w"
  "queue_inv (w\<lparr>corkedCallbacks := x8\<rparr>) = queue_inv w"
  "queue_inv (w\<lparr>error_listeners := x9\<rparr>) = queue_inv w"
  "queue_inv (w\<lparr>trace := x10\<rparr>) = queue_inv w"
  "queue_inv (w\<lparr>finals := x11\<rparr>) = queue_inv w"
  "queue_inv (w\<lparr>destroys := x12\<rparr>) = queue_inv w"
  by (simp_all add: queue_inv_def accepted_bytes_def completed_bytes_def inflight_bytes_def)

lemma queue_inv_effects: "queue_inv (effects es w) = queue_inv w"
  by (simp add: effects_def)

lemma queue_inv_completed:
  "queue_inv w \<Longrightarrow> inflight w = (d, cbs) # rest \<Longrightarrow>
     queue_inv (w\<lparr>inflight := rest, completedLog := completedLog w @ [d]\<rparr>)"
  by (simp add: queue_inv_def accepted_bytes_def completed_bytes_def inflight_bytes_def)

lemma queue_inv_emit:
  "preserves queue_inv L \<Longrightarrow> queue_inv w \<Longrightarrow> queue_inv (snd (emit L s w))"
  by (rule preserves_emit) (simp_all add: queue_inv_effects)

lemma queue_inv_destroy_callback:
  assumes "preserves queue_inv L" and "queue_inv w"
  shows "queue_inv (snd (destroy_callback L cb err w))"
  unfolding destroy_callback_def
  apply (rule snd_andThen)
   apply (simp add: assms queue_inv_emit queue_inv_effects split: option.splits)
  apply (simp add: assms queue_inv_emit)
  done

lemma queue_inv_destroy:
  assumes "preserves queue_inv L" and "queue_inv w"
  shows "queue_inv (snd (destroy L err cb w))"
proof (cases "destroyed w")
  case True
  with assms show ?thesis by (simp add: destroy_def)
next
  case False
  from assms(2) have 1: "queue_inv (effects [SinkDestroy err] (w\<lparr>destroyed := True\<rparr>))"
    by (simp add: queue_inv_effects)
  from queue_inv_destroy_callback [OF assms(1) 1] 1 False show ?thesis
    by (simp add: destroy_def call_destroy_def Let_def)
qed

lemma queue_inv_errorOrDestroy:
  assumes "preserves queue_inv L" and "queue_inv w"
  shows "queue_inv (snd (errorOrDestroy L err w))"
  using assms
  by (simp add: errorOrDestroy_def queue_inv_destroy queue_inv_emit split: option.splits)

lemma queue_inv_final_callback:
  assumes "preserves queue_inv L" and "queue_inv w"
  shows "queue_inv (snd (final_callback L err w))"
  unfolding final_callback_def
  apply (rule snd_andThen)
   apply (simp add: assms queue_inv_emit)
  apply (simp add: assms queue_inv_errorOrDestroy)
  done

lemma queue_inv_callFinish:
  assumes "preserves queue_inv L" and "queue_inv w"
  shows "queue_inv (snd (callFinish L w))"
  using assms
  by (simp add: callFinish_def Let_def queue_inv_final_callback queue_inv_effects)

lemma queue_inv_dispatch:
  "queue_inv w \<Longrightarrow>
     queue_inv (snd (callWrite (Blocks (buffers w)) (w\<lparr>buffers := [], bytesInQueue := 0\<rparr>)))"
  by (auto simp: callWrite_def Let_def effects_def queue_inv_def accepted_bytes_def
        completed_bytes_def inflight_bytes_def data_bytes_def length_concat_sum_lengths)

lemma queue_inv_next_batch:
  assumes "preserves queue_inv L" and "queue_inv w"
  shows "queue_inv (snd (next_batch L w))"
proof (cases "bytesInQueue w = 0")
  case True
  have "queue_inv (snd (andThen
      (if needDrain (w\<lparr>writing := False\<rparr>)
       then emit L Drain (w\<lparr>writing := False, needDrain := False\<rparr>)
       else (Returned (), w\<lparr>writing := False\<rparr>))
      (\<lambda>w2. if ended w2 then callFinish L w2 else (Returned (), w2))))"
    apply (rule snd_andThen)
     apply (simp add: assms queue_inv_emit)
    apply (simp add: assms queue_inv_callFinish)
    done
  with True show ?thesis by (simp add: next_batch_def Let_def)
next
  case False
  with assms(2) show ?thesis
    by (simp add: next_batch_def getBuffers_def queue_inv_dispatch)
qed

lemma queue_inv_write_callback:
  assumes "preserves queue_inv L" and "queue_inv w"
  shows "queue_inv (snd (write_callback L cbs err w))"
  unfolding write_callback_def Let_def
  apply (rule snd_andThen)
   apply (simp add: assms queue_inv_errorOrDestroy queue_inv_effects split: option.splits)
  apply (simp add: assms queue_inv_next_batch)
  done

lemma queue_inv_merge:
  "queue_inv w \<Longrightarrow>
     queue_inv (w\<lparr>buffers := buffers w @ corkedBuffers w,
                  callbacks := callbacks w @ corkedCallbacks w,
                  bytesInQueue := bytesInQueue w + bytesCorked w,
                  bytesCorked := 0, corkedBuffers := [], corkedCallbacks := []\<rparr>)"
  by (simp add: queue_inv_def accepted_bytes_def completed_bytes_def inflight_bytes_def)

lemma queue_inv_flush_corked: "queue_inv w \<Longrightarrow> queue_inv (snd (flush_corked w))"
proof -
  assume "queue_inv w"
  then have m: "queue_inv (w\<lparr>buffers := buffers w @ corkedBuffers w,
                  callbacks := callbacks w @ corkedCallbacks w,
                  bytesInQueue := bytesInQueue w + bytesCorked w,
                  bytesCorked := 0, corkedBuffers := [], corkedCallbacks := []\<rparr>)"
    by (rule queue_inv_merge)
  from queue_inv_dispatch [OF m] m show ?thesis
    by (simp add: flush_corked_def Let_def getBuffers_def)
qed

lemma queue_inv_uncork: "queue_inv w \<Longrightarrow> queue_inv (snd (uncork w))"
  by (simp add: uncork_def Let_def queue_inv_flush_corked)

lemma queue_inv_write_error:
  assumes "preserves queue_inv L" and "queue_inv w"
  shows "queue_inv (snd (write_error L e cb w))"
  unfolding write_error_def
  apply (cases cb; simp add: assms)
  apply (rule snd_andThen)
   apply (simp_all add: assms queue_inv_errorOrDestroy queue_inv_effects)
  done

lemma queue_inv_write_accept:
  "queue_inv w \<Longrightarrow> has_write w \<Longrightarrow> queue_inv (snd (write_accept b cb w))"
  by (cases cb)
     (auto simp: write_accept_def callWrite_def andThen_def Let_def effects_def
        queue_inv_def accepted_bytes_def completed_bytes_def inflight_bytes_def data_bytes_def)

lemma queue_inv_write:
  assumes "preserves queue_inv L" and "queue_inv w"
  shows "queue_inv (snd (write_with L p chunk enc cb w))"
  using assms
  by (simp add: write_with_def Let_def queue_inv_write_error queue_inv_write_accept
        split: option.splits)

lemma queue_inv_end:
  assumes "preserves queue_inv L" and "queue_inv w"
  shows "queue_inv (snd (end_with L p chunk enc cb w))"
  unfolding end_with_def Let_def
  apply (rule snd_andThen)
   apply (simp add: assms snd_case_outcome queue_inv_write split: chunk_arg.splits)
  apply (simp add: queue_inv_effects queue_inv_completed split: chunk_arg.splits enc_arg.splits option.splits)
  done

lemma queue_inv_perform:
  assumes "preserves queue_inv L" and "queue_inv w"
  shows "queue_inv (snd (perform L p ev w))"
  using assms unfolding perform_def
  by (cases ev)
     (simp_all add: cork_def setDefaultEncoding_def Let_def snd_case_outcome
        queue_inv_uncork queue_inv_destroy queue_inv_end queue_inv_write
        queue_inv_write_callback queue_inv_final_callback queue_inv_destroy_callback queue_inv_completed
        split: list.splits prod.splits option.splits)

lemma queue_inv_new: "queue_inv (new_Writable opts)"
  by (simp add: queue_inv_def new_Writable_def accepted_bytes_def completed_bytes_def
        inflight_bytes_def)

text \<open>
  C4, as stated, fails. After one write of six bytes on a new stream the chunk is
  accepted and its sink write is outstanding, so its completion callback has not fired;
  the two counters are both zero.
\<close>

theorem in_flight_bytes_not_counted:
  "bytesInQueue six_in_flight + bytesCorked six_in_flight = 0
   \<and> acceptedLog six_in_flight = [[1, 2, 3, 4, 5, 6]]
   \<and> completedLog six_in_flight = []
   \<and> inflight six_in_flight = [(Block [1, 2, 3, 4, 5, 6], [])]
   \<and> bytesInQueue six_in_flight + bytesCorked six_in_flight
       \<noteq> accepted_bytes six_in_flight - completed_bytes six_in_flight"
  by (simp add: six_in_flight_def stream_hwm10_def model_defs accepted_bytes_def
        completed_bytes_def sum_lengths_def)

text \<open>
  C4, amended. In every state reachable from a new stream, \<open>bytesInQueue\<close> is the
  summed length of the chunks in the pending queue and \<open>bytesCorked\<close> that of the
  chunks in the corked queue: together, the bytes accepted by \<open>write\<close> and not yet
  dispatched to the sink. The bytes of a dispatched sink write are counted by neither;
  the accepted bytes are those of the completed sink writes, of the outstanding ones and
  of the two queues. This holds whatever the listeners do.
\<close>

theorem counters_match_queues:
  "bytesInQueue (run p evs (new_Writable opts))
     = sum_lengths (buffers (run p evs (new_Writable opts)))
   \<and> bytesCorked (run p evs (new_Writable opts))
       = sum_lengths (corkedBuffers (run p evs (new_Writable opts)))
   \<and> accepted_bytes (run p evs (new_Writable opts))
       = completed_bytes (run p evs (new_Writable opts))
         + inflight_bytes (run p evs (new_Writable opts))
         + bytesInQueue (run p evs (new_Writable opts))
         + bytesCorked (run p evs (new_Writable opts))"
proof -
  have "queue_inv (run p evs (new_Writable opts))"
    by (rule preserves_run) (rule queue_inv_perform, assumption+, rule queue_inv_new)
  then show ?thesis by (simp add: queue_inv_def)
qed

section \<open>Dispatch\<close>

text \<open>
  C5, as stated, fails. On a stream with both sink operations, a chunk written while
  another is outstanding is queued; when the first write completes the queue holds this
  one block, and the batch is given to the multi-block operation, not to the single-block
  one.
\<close>

theorem one_block_batch_goes_to_writev:
  "trace (run example_platform
            [Write (ChunkBuf [1]) NoEnc None, Write (ChunkBuf [2]) NoEnc None, WriteDone None]
            stream_wv)
     = [SinkWrite [1], SinkWritev [[2]]]
   \<and> buffers (run example_platform
                [Write (ChunkBuf [1]) NoEnc None, Write (ChunkBuf [2]) NoEnc None] stream_wv)
     = [[2]]"
  by (simp add: stream_wv_def model_defs)

text \<open>
  C5, amended. The sink operation is chosen by where the data comes from, not by the
  number of blocks. A batch taken from the queue, of any length, goes to the multi-block
  operation as the full ordered list when that operation exists; when only the
  single-block operation exists, the batch is concatenated and passed to it. A chunk that
  \<open>write\<close> dispatches at once, with nothing outstanding and the stream not corked,
  goes to the single-block operation. The batches dispatched when a sink write completes
  and by \<open>uncork\<close> are taken from the queue. None of these paths emits a signal, so
  this holds whatever the listeners do.
\<close>

theorem callWrite_dispatch:
  "(has_writev w \<longrightarrow>
      fst (callWrite (Blocks bs) w) = Returned ()
      \<and> trace (snd (callWrite (Blocks bs) w)) = trace w @ [SinkWritev bs])
   \<and> (\<not> has_writev w \<and> has_write w \<longrightarrow>
      fst (callWrite (Blocks bs) w) = Returned ()
      \<and> trace (snd (callWrite (Blocks bs) w)) = trace w @ [SinkWrite (concat bs)])
   \<and> (has_write w \<longrightarrow>
      fst (callWrite (Block b) w) = Returned ()
      \<and> trace (snd (callWrite (Block b) w)) = trace w @ [SinkWrite b])
   \<and> (has_write w \<and> \<not> ended w \<and> \<not> destroyed w \<and> corked w = 0 \<and> \<not> writing w
        \<and> isEncoding p (resolve_encoding enc w)
        \<and> to_buffer p (resolve_encoding enc w) chunk = Some b \<longrightarrow>
      trace (snd (write_stream p chunk enc cb w)) = trace w @ [SinkWrite b])
   \<and> ((has_write w \<or> has_writev w) \<and> bytesInQueue w \<noteq> 0 \<longrightarrow>
      trace (snd (write_callback (reaction p) cbs None w))
        = trace w @ map (\<lambda>c. Call c None) cbs @ [batch_call w (buffers w)])
   \<and> ((has_write w \<or> has_writev w) \<and> corked w \<le> 1 \<and> \<not> writing w \<longrightarrow>
      trace (snd (uncork w)) = trace w @ [batch_call w (buffers w @ corkedBuffers w)])"
proof -
  have "has_write w \<and> \<not> ended w \<and> \<not> destroyed w \<and> corked w = 0 \<and> \<not> writing w
        \<and> isEncoding p (resolve_encoding enc w)
        \<and> to_buffer p (resolve_encoding enc w) chunk = Some b \<longrightarrow>
      trace (snd (write_stream p chunk enc cb w)) = trace w @ [SinkWrite b]"
    by (auto simp: write_stream_def write_with_def write_accept_def callWrite_def prim_defs
          Let_def resolve_callback_def split: option.splits enc_arg.splits)
  moreover have "(has_write w \<or> has_writev w) \<and> bytesInQueue w \<noteq> 0 \<longrightarrow>
      trace (snd (write_callback (reaction p) cbs None w))
        = trace w @ map (\<lambda>c. Call c None) cbs @ [batch_call w (buffers w)]"
    by (auto simp: write_callback_def next_batch_def callWrite_def prim_defs Let_def
          batch_call_def)
  moreover have "(has_write w \<or> has_writev w) \<and> corked w \<le> 1 \<and> \<not> writing w \<longrightarrow>
      trace (snd (uncork w)) = trace w @ [batch_call w (buffers w @ corkedBuffers w)]"
    by (auto simp: uncork_def flush_corked_def callWrite_def prim_defs Let_def batch_call_def)
  ultimately show ?thesis
    by (simp add: callWrite_def prim_defs Let_def)
qed

theorem callWrite_dispatch_witness:
  "has_write stream_wv \<and> has_writev stream_wv \<and> \<not> ended stream_wv \<and> \<not> destroyed stream_wv
   \<and> corked stream_wv = 0 \<and> \<not> writing stream_wv
   \<and> isEncoding example_platform (resolve_encoding NoEnc stream_wv)
   \<and> to_buffer example_platform (resolve_encoding NoEnc stream_wv) (ChunkBuf [5]) = Some [5]
   \<and> trace (snd (callWrite (Blocks [[1], [2]]) stream_wv)) = [SinkWritev [[1], [2]]]
   \<and> trace (snd (callWrite (Block [5]) stream_wv)) = [SinkWrite [5]]
   \<and> trace (snd (write_stream example_platform (ChunkBuf [5]) NoEnc None stream_wv))
       = [SinkWrite [5]]
   \<and> trace (snd (uncork stream_wv)) = [SinkWritev []]
   \<and> \<not> has_writev six_in_flight \<and> has_write six_in_flight
   \<and> trace (snd (callWrite (Blocks [[1], [2]]) six_in_flight))
       = [SinkWrite [1, 2, 3, 4, 5, 6], SinkWrite [1, 2]]
   \<and> bytesInQueue (snd (write_stream example_platform (ChunkBuf [9]) NoEnc None six_in_flight))
       \<noteq> 0
   \<and> trace (snd (write_callback (reaction example_platform) [4] None
        (snd (write_stream example_platform (ChunkBuf [9]) NoEnc None six_in_flight))))
       = [SinkWrite [1, 2, 3, 4, 5, 6], Call 4 None, SinkWrite [9]]"
  using callWrite_dispatch [where w = stream_wv and bs = "[[1], [2]]" and b = "[5]"
          and p = example_platform and enc = NoEnc and chunk = "ChunkBuf [5]" and cb = None
          and cbs = "[]"]
        callWrite_dispatch [where w = six_in_flight and bs = "[[1], [2]]" and b = "[5]"
          and p = example_platform and enc = NoEnc and chunk = "ChunkBuf [5]" and cb = None
          and cbs = "[]"]
        callWrite_dispatch [where
          w = "snd (write_stream example_platform (ChunkBuf [9]) NoEnc None six_in_flight)"
          and bs = "[]" and b = "[]" and p = example_platform and enc = NoEnc
          and chunk = ChunkNone and cb = None and cbs = "[4]"]
  by (simp add: stream_wv_def six_in_flight_def stream_hwm10_def model_defs batch_call_def)

section \<open>Writing after the end\<close>

text \<open>
  C6, as stated, fails, in two ways that the code chooses. On a stream that has ended and
  has no listener for \<open>error\<close> (the class registers none), \<open>emit\<close> throws the error
  and \<open>write\<close> throws it instead of returning \<open>false\<close>. And with \<open>autoDestroy\<close>
  set and a teardown operation of the user, the error is handed to \<open>destroy\<close> and no
  error signal is raised: here the teardown completes without an error, and the trace of
  the whole run holds the scheduled callback, the teardown call and the close signal only.
\<close>

theorem write_after_end_throws_or_raises_nothing:
  "fst (write_stream example_platform (ChunkBuf [1]) NoEnc (Some 7) ended_plain)
     = Threw StreamWriteAfterEndError
   \<and> ended ended_plain \<and> error_listeners ended_plain = 0
   \<and> fst (write_stream example_platform (ChunkBuf [1]) NoEnc (Some 7) ended_auto)
       = Returned False
   \<and> ended ended_auto
   \<and> trace (run example_platform
              [End ChunkNone NoEnc None, Write (ChunkBuf [1]) NoEnc (Some 7), DestroyDone None]
              stream_auto)
       = [NextTick 7 StreamWriteAfterEndError, SinkDestroy (Some StreamWriteAfterEndError),
          Emit Close]"
  by (simp add: ended_plain_def ended_auto_def stream_hwm10_def stream_auto_def model_defs)

text \<open>
  C6, amended. A \<open>write\<close> with well-formed arguments and a callback, on a stream that
  has ended or is destroyed, enqueues nothing and calls no sink write; it schedules the
  callback on the next tick with the write-after-end error when the stream has ended and
  with the destroyed error otherwise. Then, when \<open>autoDestroy\<close> is off, it raises the
  error signal with that error: with a listener for \<open>error\<close> registered the listeners
  run and \<open>write\<close> returns \<open>false\<close> when they return; with none registered the error
  is thrown out of \<open>write\<close>. When \<open>autoDestroy\<close> is on and the stream is not yet
  destroyed, the error goes to \<open>destroy\<close>: the flag is set and the teardown operation
  is called with the error. The default teardown raises the error signal at once, in the
  same way, and the close signal after it. A teardown of the user is left outstanding,
  \<open>write\<close> raises no signal and returns \<open>false\<close>. On a stream already destroyed with
  \<open>autoDestroy\<close> on, the callback is scheduled and nothing else is done to the stream.
\<close>

theorem write_after_end_fails:
  assumes "isEncoding p (resolve_encoding enc w)"
    and "to_buffer p (resolve_encoding enc w) chunk = Some b"
    and "has_write w" and "ended w \<or> destroyed w"
    and "resolve_callback enc cb = Some c"
    and "e = (if ended w then StreamWriteAfterEndError else StreamDestroyedError ''write'')"
  shows "(\<not> autoDestroy w \<and> error_listeners w = 0 \<longrightarrow>
            write_stream p chunk enc cb w
              = (Threw e, effects [NextTick c e, Emit (ErrorSignal e)] w))
         \<and> (\<not> autoDestroy w \<and> 0 < error_listeners w \<longrightarrow>
            write_stream p chunk enc cb w
              = andThen (reaction p (ErrorSignal e)
                           (effects [NextTick c e, Emit (ErrorSignal e)] w))
                  (\<lambda>w1. (Returned False, w1)))
         \<and> (\<not> autoDestroy w \<and> 0 < error_listeners w
              \<and> reaction p (ErrorSignal e) (effects [NextTick c e, Emit (ErrorSignal e)] w)
                  = (Returned (), effects [NextTick c e, Emit (ErrorSignal e)] w) \<longrightarrow>
            write_stream p chunk enc cb w
              = (Returned False, effects [NextTick c e, Emit (ErrorSignal e)] w))
         \<and> (autoDestroy w \<and> \<not> destroyed w \<and> user_destroy w \<longrightarrow>
            write_stream p chunk enc cb w
              = (Returned False,
                 (effects [SinkDestroy (Some e)]
                    ((effects [NextTick c e] w)\<lparr>destroyed := True\<rparr>))
                   \<lparr>destroys := destroys w @ [None]\<rparr>))
         \<and> (autoDestroy w \<and> \<not> destroyed w \<and> \<not> user_destroy w \<and> error_listeners w = 0 \<longrightarrow>
            write_stream p chunk enc cb w
              = (Threw e,
                 effects [SinkDestroy (Some e), Emit (ErrorSignal e)]
                   ((effects [NextTick c e] w)\<lparr>destroyed := True\<rparr>)))
         \<and> (autoDestroy w \<and> \<not> destroyed w \<and> \<not> user_destroy w \<and> 0 < error_listeners w \<longrightarrow>
            write_stream p chunk enc cb w
              = andThen
                  (andThen
                     (reaction p (ErrorSignal e)
                        (effects [SinkDestroy (Some e), Emit (ErrorSignal e)]
                           ((effects [NextTick c e] w)\<lparr>destroyed := True\<rparr>)))
                     (\<lambda>w1. if emitClose w1 then emit (reaction p) Close w1
                           else (Returned (), w1)))
                  (\<lambda>w1. (Returned False, w1)))
         \<and> (autoDestroy w \<and> destroyed w \<longrightarrow>
            write_stream p chunk enc cb w
              = (Threw (StreamDestroyedError ''destroy''), effects [NextTick c e] w))"
  using assms
  by (auto simp: write_stream_def write_with_def write_error_def errorOrDestroy_def
        destroy_def call_destroy_def destroy_callback_def emit_def prim_defs Let_def
        split: option.splits)

theorem write_after_end_fails_witness:
  "isEncoding example_platform (resolve_encoding (EncFn 7) ended_plain)
   \<and> to_buffer example_platform (resolve_encoding (EncFn 7) ended_plain) (ChunkBuf [1])
       = Some [1]
   \<and> resolve_callback (EncFn 7) None = Some 7
   \<and> has_write ended_plain \<and> ended ended_plain \<and> \<not> autoDestroy ended_plain
   \<and> error_listeners ended_plain = 0
   \<and> fst (write_stream example_platform (ChunkBuf [1]) (EncFn 7) None ended_plain)
       = Threw StreamWriteAfterEndError
   \<and> has_write ended_listening \<and> ended ended_listening \<and> \<not> autoDestroy ended_listening
   \<and> 0 < error_listeners ended_listening
   \<and> reaction example_platform (ErrorSignal StreamWriteAfterEndError)
        (effects [NextTick 7 StreamWriteAfterEndError,
                  Emit (ErrorSignal StreamWriteAfterEndError)] ended_listening)
       = (Returned (),
          effects [NextTick 7 StreamWriteAfterEndError,
                   Emit (ErrorSignal StreamWriteAfterEndError)] ended_listening)
   \<and> write_stream example_platform (ChunkBuf [1]) (EncFn 7) None ended_listening
       = (Returned False,
          effects [NextTick 7 StreamWriteAfterEndError,
                   Emit (ErrorSignal StreamWriteAfterEndError)] ended_listening)
   \<and> has_write ended_auto \<and> ended ended_auto \<and> autoDestroy ended_auto
   \<and> \<not> destroyed ended_auto \<and> user_destroy ended_auto
   \<and> fst (write_stream example_platform (ChunkBuf [1]) (EncFn 7) None ended_auto)
       = Returned False
   \<and> has_write ended_auto_default \<and> ended ended_auto_default
   \<and> autoDestroy ended_auto_default \<and> \<not> destroyed ended_auto_default
   \<and> \<not> user_destroy ended_auto_default \<and> error_listeners ended_auto_default = 0
   \<and> fst (write_stream example_platform (ChunkBuf [1]) (EncFn 7) None ended_auto_default)
       = Threw StreamWriteAfterEndError
   \<and> has_write ended_auto_default_listening \<and> ended ended_auto_default_listening
   \<and> autoDestroy ended_auto_default_listening \<and> \<not> destroyed ended_auto_default_listening
   \<and> \<not> user_destroy ended_auto_default_listening
   \<and> 0 < error_listeners ended_auto_default_listening
   \<and> write_stream example_platform (ChunkBuf [1]) (EncFn 7) None
        ended_auto_default_listening
       = (Returned False,
          effects [SinkDestroy (Some StreamWriteAfterEndError),
                   Emit (ErrorSignal StreamWriteAfterEndError), Emit Close]
            ((effects [NextTick 7 StreamWriteAfterEndError] ended_auto_default_listening)
               \<lparr>destroyed := True\<rparr>))
   \<and> has_write destroyed_auto_default \<and> destroyed destroyed_auto_default
   \<and> \<not> ended destroyed_auto_default \<and> autoDestroy destroyed_auto_default
   \<and> write_stream example_platform (ChunkBuf [1]) (EncFn 7) None destroyed_auto_default
       = (Threw (StreamDestroyedError ''destroy''),
          effects [NextTick 7 (StreamDestroyedError ''write'')] destroyed_auto_default)"
  using write_after_end_fails [where p = example_platform and enc = "EncFn 7"
          and w = ended_plain and chunk = "ChunkBuf [1]" and b = "[1]" and cb = None
          and c = 7 and e = StreamWriteAfterEndError]
        write_after_end_fails [where p = example_platform and enc = "EncFn 7"
          and w = ended_listening and chunk = "ChunkBuf [1]" and b = "[1]" and cb = None
          and c = 7 and e = StreamWriteAfterEndError]
        write_after_end_fails [where p = example_platform and enc = "EncFn 7"
          and w = ended_auto and chunk = "ChunkBuf [1]" and b = "[1]" and cb = None
          and c = 7 and e = StreamWriteAfterEndError]
        write_after_end_fails [where p = example_platform and enc = "EncFn 7"
          and w = ended_auto_default and chunk = "ChunkBuf [1]" and b = "[1]" and cb = None
          and c = 7 and e = StreamWriteAfterEndError]
        write_after_end_fails [where p = example_platform and enc = "EncFn 7"
          and w = ended_auto_default_listening and chunk = "ChunkBuf [1]" and b = "[1]"
          and cb = None and c = 7 and e = StreamWriteAfterEndError]
        write_after_end_fails [where p = example_platform and enc = "EncFn 7"
          and w = destroyed_auto_default and chunk = "ChunkBuf [1]" and b = "[1]"
          and cb = None and c = 7 and e = "StreamDestroyedError ''write''"]
  by (simp add: ended_plain_def ended_listening_def ended_auto_def ended_auto_default_def
        ended_auto_default_listening_def destroyed_auto_default_def stream_hwm10_def
        stream_auto_def stream_auto_default_def model_defs)

section \<open>Destruction\<close>

lemma teardowns_append [simp]: "teardowns (xs @ ys) = teardowns xs + teardowns ys"
  by (simp add: teardowns_def)

lemma teardowns_simps [simp]:
  "teardowns [] = 0" "teardowns (SinkDestroy e # es) = Suc (teardowns es)"
  "teardowns (Emit s # es) = teardowns es" "teardowns (Call c eo # es) = teardowns es"
  "teardowns (SinkFinal # es) = teardowns es" "teardowns (SinkWrite b # es) = teardowns es"
  "teardowns (SinkWritev bs # es) = teardowns es" "teardowns (NextTick c e' # es) = teardowns es"
  "teardowns (Once s c # es) = teardowns es"
  by (simp_all add: teardowns_def)

lemma teardowns_calls [simp]: "teardowns (map (\<lambda>cb. Call cb err) cbs) = 0"
  by (induction cbs) simp_all

lemma destroy_inv_upd [simp]:
  "destroy_inv (w\<lparr>defaultEncoding := s0\<rparr>) = destroy_inv w"
  "destroy_inv (w\<lparr>finished := b1\<rparr>) = destroy_inv w"
  "destroy_inv (w\<lparr>ended := b2\<rparr>) = destroy_inv w"
  "destroy_inv (w\<lparr>corked := n1\<rparr>) = destroy_inv w"
  "destroy_inv (w\<lparr>writing := b3\<rparr>) = destroy_inv w"
  "destroy_inv (w\<lparr>needDrain := b4\<rparr>) = destroy_inv w"
  "destroy_inv (w\<lparr>bytesInQueue := n2\<rparr>) = destroy_inv w"
  "destroy_inv (w\<lparr>buffers := l1\<rparr>) = destroy_inv w"
  "destroy_inv (w\<lparr>callbacks := l2\<rparr>) = destroy_inv w"
  "destroy_inv (w\<lparr>bytesCorked := n3\<rparr>) = destroy_inv w"
  "destroy_inv (w\<lparr>corkedBuffers := l3\<rparr>) = destroy_inv w"
  "destroy_inv (w\<lparr>corkedCallbacks := l4\<rparr>) = destroy_inv w"
  "destroy_inv (w\<lparr>error_listeners := n5\<rparr>) = destroy_inv w"
  "destroy_inv (w\<lparr>inflight := l5\<rparr>) = destroy_inv w"
  "destroy_inv (w\<lparr>finals := n4\<rparr>) = destroy_inv w"
  "destroy_inv (w\<lparr>destroys := l6\<rparr>) = destroy_inv w"
  "destroy_inv (w\<lparr>acceptedLog := l7\<rparr>) = destroy_inv w"
  "destroy_inv (w\<lparr>completedLog := l8\<rparr>) = destroy_inv w"
  by (simp_all add: destroy_inv_def)

lemma destroy_inv_effects [simp]: "teardowns es = 0 \<Longrightarrow> destroy_inv (effects es w) = destroy_inv w"
  by (simp add: destroy_inv_def effects_def)

lemma destroy_inv_emit:
  "preserves destroy_inv L \<Longrightarrow> destroy_inv w \<Longrightarrow> destroy_inv (snd (emit L s w))"
  by (rule preserves_emit) simp_all

lemma destroy_inv_destroy_callback:
  assumes "preserves destroy_inv L" and "destroy_inv w"
  shows "destroy_inv (snd (destroy_callback L cb err w))"
  unfolding destroy_callback_def
  apply (rule snd_andThen)
   apply (simp add: assms destroy_inv_emit split: option.splits)
  apply (simp add: assms destroy_inv_emit)
  done

lemma destroy_inv_destroy:
  assumes "preserves destroy_inv L" and "destroy_inv w"
  shows "destroy_inv (snd (destroy L err cb w))"
proof (cases "destroyed w")
  case True
  with assms show ?thesis by (simp add: destroy_def)
next
  case False
  with assms(2) have 1: "destroy_inv (effects [SinkDestroy err] (w\<lparr>destroyed := True\<rparr>))"
    by (simp add: destroy_inv_def effects_def)
  from destroy_inv_destroy_callback [OF assms(1) 1] 1 False show ?thesis
    by (simp add: destroy_def call_destroy_def Let_def)
qed

lemma destroy_inv_errorOrDestroy:
  assumes "preserves destroy_inv L" and "destroy_inv w"
  shows "destroy_inv (snd (errorOrDestroy L err w))"
  using assms
  by (simp add: errorOrDestroy_def destroy_inv_destroy destroy_inv_emit split: option.splits)

lemma destroy_inv_final_callback:
  assumes "preserves destroy_inv L" and "destroy_inv w"
  shows "destroy_inv (snd (final_callback L err w))"
  unfolding final_callback_def
  apply (rule snd_andThen)
   apply (simp add: assms destroy_inv_emit)
  apply (simp add: assms destroy_inv_errorOrDestroy)
  done

lemma destroy_inv_callFinish:
  assumes "preserves destroy_inv L" and "destroy_inv w"
  shows "destroy_inv (snd (callFinish L w))"
  using assms by (simp add: callFinish_def Let_def destroy_inv_final_callback)

lemma destroy_inv_callWrite: "destroy_inv w \<Longrightarrow> destroy_inv (snd (callWrite d w))"
  by (simp add: callWrite_def Let_def split: data.splits)

lemma destroy_inv_next_batch:
  assumes "preserves destroy_inv L" and "destroy_inv w"
  shows "destroy_inv (snd (next_batch L w))"
proof (cases "bytesInQueue w = 0")
  case True
  have "destroy_inv (snd (andThen
      (if needDrain (w\<lparr>writing := False\<rparr>)
       then emit L Drain (w\<lparr>writing := False, needDrain := False\<rparr>)
       else (Returned (), w\<lparr>writing := False\<rparr>))
      (\<lambda>w2. if ended w2 then callFinish L w2 else (Returned (), w2))))"
    apply (rule snd_andThen)
     apply (simp add: assms destroy_inv_emit)
    apply (simp add: assms destroy_inv_callFinish)
    done
  with True show ?thesis by (simp add: next_batch_def Let_def)
next
  case False
  with assms(2) show ?thesis
    by (simp add: next_batch_def getBuffers_def destroy_inv_callWrite)
qed

lemma destroy_inv_write_callback:
  assumes "preserves destroy_inv L" and "destroy_inv w"
  shows "destroy_inv (snd (write_callback L cbs err w))"
  unfolding write_callback_def Let_def
  apply (rule snd_andThen)
   apply (simp add: assms destroy_inv_errorOrDestroy split: option.splits)
  apply (simp add: assms destroy_inv_next_batch)
  done

lemma destroy_inv_uncork: "destroy_inv w \<Longrightarrow> destroy_inv (snd (uncork w))"
  by (simp add: uncork_def flush_corked_def Let_def getBuffers_def destroy_inv_callWrite)

lemma destroy_inv_write_error:
  assumes "preserves destroy_inv L" and "destroy_inv w"
  shows "destroy_inv (snd (write_error L e cb w))"
  unfolding write_error_def
  apply (cases cb; simp add: assms)
  apply (rule snd_andThen)
   apply (simp_all add: assms destroy_inv_errorOrDestroy)
  done

lemma destroy_inv_write_accept: "destroy_inv w \<Longrightarrow> destroy_inv (snd (write_accept b cb w))"
  unfolding write_accept_def Let_def
  apply (rule snd_andThen)
   apply (simp add: destroy_inv_callWrite split: option.splits)
  apply simp
  done

lemma destroy_inv_write:
  assumes "preserves destroy_inv L" and "destroy_inv w"
  shows "destroy_inv (snd (write_with L p chunk enc cb w))"
  using assms
  by (simp add: write_with_def Let_def destroy_inv_write_error destroy_inv_write_accept
        split: option.splits)

lemma destroy_inv_end:
  assumes "preserves destroy_inv L" and "destroy_inv w"
  shows "destroy_inv (snd (end_with L p chunk enc cb w))"
  unfolding end_with_def Let_def
  apply (rule snd_andThen)
   apply (simp add: assms snd_case_outcome destroy_inv_write split: chunk_arg.splits)
  apply (simp split: chunk_arg.splits enc_arg.splits option.splits)
  done

lemma destroy_inv_perform:
  assumes "preserves destroy_inv L" and "destroy_inv w"
  shows "destroy_inv (snd (perform L p ev w))"
  using assms unfolding perform_def
  by (cases ev)
     (simp_all add: cork_def setDefaultEncoding_def Let_def snd_case_outcome
        destroy_inv_uncork destroy_inv_destroy destroy_inv_end destroy_inv_write
        destroy_inv_write_callback destroy_inv_final_callback destroy_inv_destroy_callback
        split: list.splits prod.splits option.splits)

lemma destroyed_emit:
  "preserves destroyed L \<Longrightarrow> destroyed w \<Longrightarrow> destroyed (snd (emit L s w))"
  by (rule preserves_emit) simp_all

lemma destroyed_destroy_callback:
  assumes "preserves destroyed L" and "destroyed w"
  shows "destroyed (snd (destroy_callback L cb err w))"
  unfolding destroy_callback_def
  apply (rule snd_andThen)
   apply (simp add: assms destroyed_emit split: option.splits)
  apply (simp add: assms destroyed_emit)
  done

lemma destroyed_destroy: "destroyed w \<Longrightarrow> destroyed (snd (destroy L err cb w))"
  by (simp add: destroy_def)

lemma destroyed_errorOrDestroy:
  assumes "preserves destroyed L" and "destroyed w"
  shows "destroyed (snd (errorOrDestroy L err w))"
  using assms
  by (simp add: errorOrDestroy_def destroyed_destroy destroyed_emit split: option.splits)

lemma destroyed_final_callback:
  assumes "preserves destroyed L" and "destroyed w"
  shows "destroyed (snd (final_callback L err w))"
  unfolding final_callback_def
  apply (rule snd_andThen)
   apply (simp add: assms destroyed_emit)
  apply (simp add: assms destroyed_errorOrDestroy)
  done

lemma destroyed_callFinish:
  assumes "preserves destroyed L" and "destroyed w"
  shows "destroyed (snd (callFinish L w))"
  using assms by (simp add: callFinish_def Let_def destroyed_final_callback)

lemma destroyed_callWrite: "destroyed w \<Longrightarrow> destroyed (snd (callWrite d w))"
  by (simp add: callWrite_def Let_def split: data.splits)

lemma destroyed_next_batch:
  assumes "preserves destroyed L" and "destroyed w"
  shows "destroyed (snd (next_batch L w))"
proof (cases "bytesInQueue w = 0")
  case True
  have "destroyed (snd (andThen
      (if needDrain (w\<lparr>writing := False\<rparr>)
       then emit L Drain (w\<lparr>writing := False, needDrain := False\<rparr>)
       else (Returned (), w\<lparr>writing := False\<rparr>))
      (\<lambda>w2. if ended w2 then callFinish L w2 else (Returned (), w2))))"
    apply (rule snd_andThen)
     apply (simp add: assms destroyed_emit)
    apply (simp add: assms destroyed_callFinish)
    done
  with True show ?thesis by (simp add: next_batch_def Let_def)
next
  case False
  with assms(2) show ?thesis
    by (simp add: next_batch_def getBuffers_def destroyed_callWrite)
qed

lemma destroyed_write_callback:
  assumes "preserves destroyed L" and "destroyed w"
  shows "destroyed (snd (write_callback L cbs err w))"
  unfolding write_callback_def Let_def
  apply (rule snd_andThen)
   apply (simp add: assms destroyed_errorOrDestroy split: option.splits)
  apply (simp add: assms destroyed_next_batch)
  done

lemma destroyed_uncork: "destroyed w \<Longrightarrow> destroyed (snd (uncork w))"
  by (simp add: uncork_def flush_corked_def Let_def getBuffers_def destroyed_callWrite)

lemma destroyed_write_error:
  assumes "preserves destroyed L" and "destroyed w"
  shows "destroyed (snd (write_error L e cb w))"
  unfolding write_error_def
  apply (cases cb; simp add: assms)
  apply (rule snd_andThen)
   apply (simp_all add: assms destroyed_errorOrDestroy)
  done

lemma destroyed_write_accept: "destroyed w \<Longrightarrow> destroyed (snd (write_accept b cb w))"
  unfolding write_accept_def Let_def
  apply (rule snd_andThen)
   apply (simp add: destroyed_callWrite split: option.splits)
  apply simp
  done

lemma destroyed_write:
  assumes "preserves destroyed L" and "destroyed w"
  shows "destroyed (snd (write_with L p chunk enc cb w))"
  using assms
  by (simp add: write_with_def Let_def destroyed_write_error destroyed_write_accept
        split: option.splits)

lemma destroyed_end:
  assumes "preserves destroyed L" and "destroyed w"
  shows "destroyed (snd (end_with L p chunk enc cb w))"
  unfolding end_with_def Let_def
  apply (rule snd_andThen)
   apply (simp add: assms snd_case_outcome destroyed_write split: chunk_arg.splits)
  apply (simp split: chunk_arg.splits enc_arg.splits option.splits)
  done

lemma destroyed_perform:
  assumes "preserves destroyed L" and "destroyed w"
  shows "destroyed (snd (perform L p ev w))"
  using assms unfolding perform_def
  by (cases ev)
     (simp_all add: cork_def setDefaultEncoding_def Let_def snd_case_outcome
        destroyed_uncork destroyed_destroy destroyed_end destroyed_write
        destroyed_write_callback destroyed_final_callback destroyed_destroy_callback
        split: list.splits prod.splits option.splits)

lemma destroy_inv_new: "destroy_inv (new_Writable opts)"
  by (simp add: destroy_inv_def new_Writable_def)

text \<open>
  C7. \<open>destroy\<close> on a stream that is already destroyed throws the destroyed-stream error
  and changes nothing, so the teardown operation is not called again. On a stream that is
  not destroyed, the flag is set first and the teardown operation is called on the state
  that already carries it; a teardown supplied by the user is then outstanding while
  \<open>destroyed\<close> is true. No event clears the flag, and in every state reachable from a
  new stream the teardown operation has been called at most once. All of this holds
  whatever the listeners do.
\<close>

theorem destroy_only_once:
  "(destroyed w \<longrightarrow>
      destroy (reaction p) err cb w = (Threw (StreamDestroyedError ''destroy''), w))
   \<and> (\<not> destroyed w \<longrightarrow>
        destroy (reaction p) err cb w
          = call_destroy (reaction p) err cb (w\<lparr>destroyed := True\<rparr>)
        \<and> destroyed (snd (destroy (reaction p) err cb w))
        \<and> (user_destroy w \<longrightarrow>
             destroy (reaction p) err cb w
               = (Returned (),
                  (effects [SinkDestroy err] (w\<lparr>destroyed := True\<rparr>))
                    \<lparr>destroys := destroys w @ [cb]\<rparr>)))
   \<and> (destroyed w \<longrightarrow> destroyed (run p evs w))
   \<and> teardowns (trace (run p evs (new_Writable opts))) \<le> 1"
proof -
  have "destroy_inv (run p evs (new_Writable opts))"
    by (rule preserves_run) (rule destroy_inv_perform, assumption+, rule destroy_inv_new)
  then have "teardowns (trace (run p evs (new_Writable opts))) \<le> 1"
    by (simp add: destroy_inv_def split: if_splits)
  moreover have "destroyed w \<Longrightarrow> destroyed (run p evs w)"
    by (rule preserves_run) (rule destroyed_perform, assumption+)
  moreover have "preserves destroyed (reaction p)"
    unfolding reaction_def by (rule preserves_react) (rule destroyed_perform)
  then have "\<not> destroyed w \<Longrightarrow> destroyed (snd (destroy (reaction p) err cb w))"
    using destroyed_destroy_callback [of "reaction p"
        "effects [SinkDestroy err] (w\<lparr>destroyed := True\<rparr>)" cb err]
    by (simp add: destroy_def call_destroy_def Let_def)
  ultimately show ?thesis
    by (simp add: destroy_def call_destroy_def Let_def)
qed

theorem destroy_only_once_witness:
  "\<not> destroyed stream_teardown \<and> user_destroy stream_teardown
   \<and> destroyed (snd (destroy (reaction example_platform) None (Some 3) stream_teardown))
   \<and> destroys (snd (destroy (reaction example_platform) None (Some 3) stream_teardown))
       = [Some 3]
   \<and> trace (snd (destroy (reaction example_platform) None (Some 3) stream_teardown))
       = [SinkDestroy None]
   \<and> destroy (reaction example_platform) None None
        (snd (destroy (reaction example_platform) None (Some 3) stream_teardown))
       = (Threw (StreamDestroyedError ''destroy''),
          snd (destroy (reaction example_platform) None (Some 3) stream_teardown))
   \<and> destroyed (run example_platform [DestroyDone None, Uncork]
                   (snd (destroy (reaction example_platform) None (Some 3) stream_teardown)))"
  using destroy_only_once [where w = stream_teardown and err = None and cb = "Some 3"
          and p = example_platform and evs = "[]" and opts = default_options]
        destroy_only_once [where
          w = "snd (destroy (reaction example_platform) None (Some 3) stream_teardown)"
          and err = None and cb = None and p = example_platform
          and evs = "[DestroyDone None, Uncork]" and opts = default_options]
  by (simp add: stream_teardown_def model_defs)

section \<open>Corked writes\<close>

lemma accepted_write_is_accept:
  "accepted_write p w (Write chunk enc cb) b \<Longrightarrow>
     write_with L p chunk enc cb w = write_accept b (resolve_callback enc cb) w"
  by (simp add: accepted_write_def write_with_def Let_def)

lemma accepted_write_cong:
  "uncorked_part w' = uncorked_part w \<Longrightarrow> accepted_write p w' ev b = accepted_write p w ev b"
  by (simp add: accepted_write_def uncorked_part_def resolve_encoding_def
        split: event.splits enc_arg.splits)

lemma accepted_write_cork: "accepted_write p (cork w) ev b = accepted_write p w ev b"
  by (simp add: accepted_write_def cork_def resolve_encoding_def
        split: event.splits enc_arg.splits)

lemma corked_write_step:
  assumes "corked w > 0" and "accepted_write p w ev b"
  shows "uncorked_part (step p ev w) = uncorked_part w
         \<and> corkedBuffers (step p ev w) = corkedBuffers w @ [b]"
proof (cases ev)
  case (Write chunk enc cb)
  with assms(2) have "step p ev w = snd (write_accept b (resolve_callback enc cb) w)"
    by (simp add: step_def perform_def snd_case_outcome accepted_write_is_accept)
  with assms(1) show ?thesis
    by (cases "resolve_callback enc cb")
       (simp_all add: write_accept_def uncorked_part_def andThen_def Let_def)
qed (use assms(2) in \<open>simp_all add: accepted_write_def\<close>)

lemma corked_writes_run:
  "corked w > 0 \<Longrightarrow> list_all2 (accepted_write p w) evs bs \<Longrightarrow>
     uncorked_part (run p evs w) = uncorked_part w
     \<and> corkedBuffers (run p evs w) = corkedBuffers w @ bs"
proof (induction evs arbitrary: w bs)
  case Nil
  then show ?case by simp
next
  case (Cons ev evs)
  from Cons.prems(2) obtain b bs' where bs: "bs = b # bs'"
    and b: "accepted_write p w ev b" and rest: "list_all2 (accepted_write p w) evs bs'"
    by (auto simp: list_all2_Cons1)
  from corked_write_step [OF Cons.prems(1) b]
  have same: "uncorked_part (step p ev w) = uncorked_part w"
    and cb: "corkedBuffers (step p ev w) = corkedBuffers w @ [b]" by simp_all
  from same Cons.prems(1) have pos: "corked (step p ev w) > 0"
    by (simp add: uncorked_part_def)
  from rest same have "list_all2 (accepted_write p (step p ev w)) evs bs'"
    by (simp add: accepted_write_cong [OF same, abs_def])
  from Cons.IH [OF pos this] same cb bs show ?case by simp
qed

lemma uncork_last_level:
  assumes "corked w = 1" and "\<not> writing w"
  shows "trace (snd (uncork w)) =
           trace w @ (if has_write w \<or> has_writev w
                      then [batch_call w (buffers w @ corkedBuffers w)] else [])"
  using assms by (auto simp: uncork_def flush_corked_def callWrite_def prim_defs Let_def batch_call_def)

lemma uncork_inner_level:
  assumes "corked w > 1"
  shows "trace (snd (uncork w)) = trace w"
  using assms by (simp add: uncork_def Let_def)

text \<open>
  C8. On a stream with no sink operation outstanding, \<open>cork\<close>, then any number of
  accepted writes, then \<open>uncork\<close> add at most one effect to the trace, a single sink
  write. It is made when the depth returns to zero (and the stream has a sink operation),
  and its batch is what was queued before, followed by the chunks of all these writes in
  the order of their acceptance: the list itself for the multi-block operation, its
  concatenation for the single-block one.
\<close>

theorem cork_writes_uncork_one_dispatch:
  assumes "\<not> writing w" and "list_all2 (accepted_write p w) evs bs"
  shows "trace (run p (Cork # evs @ [Uncork]) w)
           = trace w @ (if corked w = 0 \<and> (has_write w \<or> has_writev w)
                        then [batch_call w (buffers w @ corkedBuffers w @ bs)] else [])
         \<and> length (sink_calls (trace (run p (Cork # evs @ [Uncork]) w)))
             \<le> length (sink_calls (trace w)) + 1"
proof -
  have run_app: "\<And>xs ys v. run p (xs @ ys) v = run p ys (run p xs v)"
    subgoal for xs ys v by (induction xs arbitrary: v) simp_all
    done
  let ?c = "cork w"
  let ?m = "run p evs ?c"
  have c0: "corked ?c > 0" by (simp add: cork_def)
  have cv: "uncorked_part ?c = (fst (uncorked_part w), Suc (corked w), snd (snd (uncorked_part w)))"
    by (simp add: cork_def uncorked_part_def)
  have "list_all2 (accepted_write p ?c) evs bs"
    using assms(2) by (simp add: accepted_write_cork [abs_def])
  from corked_writes_run [OF c0 this]
  have m: "uncorked_part ?m = uncorked_part ?c" "corkedBuffers ?m = corkedBuffers w @ bs"
    by (simp_all add: cork_def)
  from m(1) assms(1) have fields: "corked ?m = Suc (corked w)" "\<not> writing ?m"
    "buffers ?m = buffers w" "trace ?m = trace w" "has_write ?m = has_write w"
    "has_writev ?m = has_writev w"
    by (simp_all add: uncorked_part_def cork_def)
  have final: "run p (Cork # evs @ [Uncork]) w = snd (uncork ?m)"
    by (simp add: run_app step_def perform_def)
  have tr: "trace (snd (uncork ?m))
           = trace w @ (if corked w = 0 \<and> (has_write w \<or> has_writev w)
                        then [batch_call w (buffers w @ corkedBuffers w @ bs)] else [])"
  proof (cases "corked w = 0")
    case True
    with fields have "corked ?m = 1" by simp
    from uncork_last_level [OF this fields(2)] fields m(2) True show ?thesis
      by (simp add: batch_call_def)
  next
    case False
    with fields have "corked ?m > 1" by simp
    from uncork_inner_level [OF this] fields False show ?thesis by simp
  qed
  show ?thesis unfolding final tr by (simp add: batch_call_def)
qed

theorem cork_writes_uncork_one_dispatch_witness:
  "\<not> writing stream_wv
   \<and> list_all2 (accepted_write example_platform stream_wv)
       [Write (ChunkBuf [1, 2]) NoEnc None, Write (ChunkStr ''a'') (EncName ''ascii'') (Some 4),
        Write (ChunkBuf [3]) (EncFn 5) None]
       [[1, 2], [97], [3]]
   \<and> trace (run example_platform
       [Cork, Write (ChunkBuf [1, 2]) NoEnc None,
        Write (ChunkStr ''a'') (EncName ''ascii'') (Some 4),
        Write (ChunkBuf [3]) (EncFn 5) None, Uncork] stream_wv)
       = [SinkWritev [[1, 2], [97], [3]]]"
  using cork_writes_uncork_one_dispatch [where w = stream_wv and p = example_platform
      and evs = "[Write (ChunkBuf [1, 2]) NoEnc None,
                  Write (ChunkStr ''a'') (EncName ''ascii'') (Some 4),
                  Write (ChunkBuf [3]) (EncFn 5) None]"
      and bs = "[[1, 2], [97], [3]]"]
  by (simp add: stream_wv_def accepted_write_def batch_call_def model_defs)

section \<open>File offsets\<close>

lemma positions_append: "positions (xs @ ys) = positions xs @ positions ys"
  by (induction xs rule: positions.induct) simp_all

lemma js_add_exact: "a + b \<le> 2 ^ 53 \<Longrightarrow> js_add (Finite a) (Finite b) = Finite (a + b)"
  by (simp add: round_double_def)

lemma bit_length_54: "bit_length 9007199254740993 = 54"
  by (simp add: bit_length.simps)

lemma sink_write_ok_step:
  assumes "fd fs = Some h" and "fs_inflight fs = []" and "bytesWritten fs = Finite bw"
    and "start fs + bw + n \<le> 2 ^ 53"
  shows "fd (sink_write_ok (d, cb, n) fs) = Some h
         \<and> fs_inflight (sink_write_ok (d, cb, n) fs) = []
         \<and> start (sink_write_ok (d, cb, n) fs) = start fs
         \<and> bytesWritten (sink_write_ok (d, cb, n) fs) = Finite (bw + n)
         \<and> positions (fs_trace (sink_write_ok (d, cb, n) fs))
             = positions (fs_trace fs) @ [Finite (start fs + bw)]"
proof -
  from assms(4) have "start fs + bw \<le> 2 ^ 53" and "bw + n \<le> 2 ^ 53" by simp_all
  then have "js_add (Finite (start fs)) (Finite bw) = Finite (start fs + bw)"
    and "js_add (Finite bw) (Finite n) = Finite (bw + n)"
    by (simp_all only: js_add_exact)
  with assms(1-3) show ?thesis
    by (cases d; cases cb)
       (simp_all add: sink_write_ok_def fs_answer_def fs_write_def fs_writev_def
          fs_write_done_def fs_writev_done_def positions_append Let_def)
qed

lemma sink_writes_ok_positions:
  "fd fs = Some h \<Longrightarrow> fs_inflight fs = [] \<Longrightarrow> bytesWritten fs = Finite bw \<Longrightarrow>
   start fs + bw + sum_list (map (\<lambda>op. snd (snd op)) ops) \<le> 2 ^ 53 \<Longrightarrow>
     positions (fs_trace (sink_writes_ok ops fs))
       = positions (fs_trace fs)
         @ map Finite (contiguous_from (start fs + bw) (map (\<lambda>op. snd (snd op)) ops))
     \<and> bytesWritten (sink_writes_ok ops fs)
         = Finite (bw + sum_list (map (\<lambda>op. snd (snd op)) ops))"
proof (induction ops arbitrary: fs bw)
  case Nil
  then show ?case by simp
next
  case (Cons op ops)
  obtain d cb n where op: "op = (d, cb, n)" by (cases op) auto
  from Cons.prems(4) have b1: "start fs + bw + n \<le> 2 ^ 53"
    and b2: "start fs + (bw + n) + sum_list (map (\<lambda>op. snd (snd op)) ops) \<le> 2 ^ 53"
    by (simp_all add: op)
  note s = sink_write_ok_step [OF Cons.prems(1-3) b1, of d cb]
  from s b2 have "fd (sink_write_ok op fs) = Some h" "fs_inflight (sink_write_ok op fs) = []"
    "bytesWritten (sink_write_ok op fs) = Finite (bw + n)"
    "start (sink_write_ok op fs) + (bw + n) + sum_list (map (\<lambda>op. snd (snd op)) ops)
       \<le> 2 ^ 53"
    by (simp_all add: op)
  from Cons.IH [OF this] s show ?case
    by (simp add: op add.assoc)
qed

text \<open>
  C9, as stated, fails. The constructor admits \<open>start = Number.MAX_SAFE_INTEGER\<close>. The
  first write is issued there and reports two bytes, so it ends at \<open>2^53 + 1\<close>; the
  position of the next write is the double nearest to that sum, \<open>2^53\<close>, which is the
  last byte of the first write.
\<close>

theorem second_write_overlaps_at_max_safe_integer:
  "positions (fs_trace (sink_writes_ok [(Block [1, 2], None, 2), (Block [3], None, 1)]
                          file_at_max))
     = [Finite 9007199254740991, Finite 9007199254740992]
   \<and> start file_at_max = 9007199254740991
   \<and> bytesWritten (sink_write_ok (Block [1, 2], None, 2) file_at_max) = Finite 2
   \<and> start file_at_max + 2 = 9007199254740993"
  by (simp add: file_at_max_def sink_write_ok_def fs_answer_def fs_write_def
        fs_write_done_def round_double_def bit_length_54 Let_def)

text \<open>
  C9, amended. With the descriptor open, \<open>_write\<close> and \<open>_writev\<close> call the file system
  with the position \<open>start + bytesWritten\<close>, and the closure of either adds to
  \<open>bytesWritten\<close> the number of bytes the file system reports, both sums being those of
  doubles. In a sequence of successful sink writes, issued one after the other, for which
  \<open>start\<close> plus all the bytes reported stays at most \<open>2^53\<close>, the sums are exact and the
  positions are contiguous: the first is \<open>start + bytesWritten\<close>, and each next one is
  the previous position plus the bytes reported for the previous write.
\<close>

theorem file_writes_are_contiguous:
  assumes "fd fs = Some h" and "fs_inflight fs = []" and "bytesWritten fs = Finite bw"
    and "start fs + bw + sum_list (map (\<lambda>op. snd (snd op)) ops) \<le> 2 ^ 53"
  shows "fs_trace (fs_write d cb fs)
           = fs_trace fs @ [FsWrite h d 0 (data_length d)
                              (js_add (Finite (start fs)) (bytesWritten fs))]
         \<and> fs_trace (fs_writev bs cb fs)
             = fs_trace fs @ [FsWritev h bs (js_add (Finite (start fs)) (bytesWritten fs))]
         \<and> bytesWritten (fs_write_done cb None n fs) = js_add (bytesWritten fs) (Finite n)
         \<and> bytesWritten (fs_writev_done cb None n fs) = js_add (bytesWritten fs) (Finite n)
         \<and> js_add (Finite (start fs)) (bytesWritten fs) = Finite (start fs + bw)
         \<and> positions (fs_trace (sink_writes_ok ops fs))
             = positions (fs_trace fs)
               @ map Finite (contiguous_from (start fs + bw) (map (\<lambda>op. snd (snd op)) ops))
         \<and> bytesWritten (sink_writes_ok ops fs)
             = Finite (bw + sum_list (map (\<lambda>op. snd (snd op)) ops))"
proof -
  from assms(4) have "start fs + bw \<le> 2 ^ 53" by simp
  then have "js_add (Finite (start fs)) (bytesWritten fs) = Finite (start fs + bw)"
    by (simp only: assms(3) js_add_exact)
  with assms(1) sink_writes_ok_positions [OF assms, of] show ?thesis
    by (cases cb)
       (simp_all add: fs_write_def fs_writev_def fs_write_done_def fs_writev_done_def Let_def)
qed

theorem file_writes_are_contiguous_witness:
  "fd file_at_100 = Some 3 \<and> fs_inflight file_at_100 = []
   \<and> bytesWritten file_at_100 = Finite 0
   \<and> start file_at_100 + 0 + sum_list [3, 3, 1] \<le> (2::nat) ^ 53
   \<and> positions (fs_trace (sink_writes_ok
        [(Block [1, 2, 3], Some 1, 3), (Blocks [[4], [5, 6]], Some 2, 3), (Block [7], None, 1)]
        file_at_100)) = [Finite 100, Finite 103, Finite 106]
   \<and> bytesWritten (sink_writes_ok
        [(Block [1, 2, 3], Some 1, 3), (Blocks [[4], [5, 6]], Some 2, 3), (Block [7], None, 1)]
        file_at_100) = Finite 7"
  using file_writes_are_contiguous [where fs = file_at_100 and h = 3 and bw = 0
      and d = "Block []" and cb = None and bs = "[]" and n = 0
      and ops = "[(Block [1, 2, 3], Some 1, 3), (Blocks [[4], [5, 6]], Some 2, 3),
                  (Block [7], None, 1)]"]
  by (simp add: file_at_100_def)

section \<open>Uncorking an empty queue\<close>

text \<open>Where the claim holds: with the writing flag clear, both queues empty and a sink
  operation present, the last \<open>uncork\<close> dispatches the empty batch.\<close>

lemma uncork_dispatches_empty_batch:
  assumes "corked w \<le> 1" and "corkedBuffers w = []" and "buffers w = []"
    and "\<not> writing w" and "has_write w \<or> has_writev w"
  shows "fst (uncork w) = Returned ()
         \<and> trace (snd (uncork w))
             = trace w @ [if has_writev w then SinkWritev [] else SinkWrite []]"
  using assms
  by (auto simp: uncork_def flush_corked_def callWrite_def prim_defs Let_def)

text \<open>
  C10, on the code. A chunk of length zero is written behind a write in flight; when that
  write completes, the closure tests the byte count of the pending queue, finds zero and
  ends the writing phase with the chunk still queued. The stream is then corked and
  uncorked: the corked queue is empty and nothing is in flight, and the multi-block
  operation is called with a list of one block, not with the empty list. On the second
  stream the producer destroyed the stream and the write in flight failed afterwards:
  \<open>errorOrDestroy\<close> threw out of the closure, \<open>writing\<close> stayed true with nothing in
  flight, and the last \<open>uncork\<close> dispatches nothing at all.
\<close>

theorem uncork_after_empty_chunk_or_failed_write:
  "corkedBuffers empty_chunk_left = [] \<and> inflight empty_chunk_left = []
   \<and> \<not> writing empty_chunk_left \<and> has_writev empty_chunk_left
   \<and> buffers empty_chunk_left = [[]]
   \<and> corked (run example_platform [Cork] empty_chunk_left) = 1
   \<and> corked (run example_platform [Cork, Uncork] empty_chunk_left) = 0
   \<and> trace (run example_platform [Cork, Uncork] empty_chunk_left)
       = trace empty_chunk_left @ [SinkWritev [[]]]
   \<and> corkedBuffers failed_after_destroy = [] \<and> inflight failed_after_destroy = []
   \<and> buffers failed_after_destroy = [] \<and> has_write failed_after_destroy
   \<and> writing failed_after_destroy
   \<and> corked (run example_platform [Cork, Uncork] failed_after_destroy) = 0
   \<and> trace (run example_platform [Cork, Uncork] failed_after_destroy)
       = trace failed_after_destroy"
  by (simp add: empty_chunk_left_def failed_after_destroy_def stream_wv_def
        stream_auto_default_def model_defs)

end
